theory Spec2Isabelle
  imports Complex_Main
begin

section \<open>URL classification\<close>

text \<open>
  The playback engine and the add-song form share one regular expression,
  \<^verbatim>\<open>/(?:youtube\.com\/watch\?v=|youtu\.be\/)([a-zA-Z0-9_-]+)/\<close>.
  It is not anchored: the matcher tries every start position from the left, at each
  position the two alternatives in order, and then takes the longest run of id
  characters (at least one). A string is a list of code units; only ASCII code units
  can take part in a match.
\<close>

definition isIdChar :: "char \<Rightarrow> bool" where
  "isIdChar c =
     (let n = (of_char c :: nat) in
        (97 \<le> n \<and> n \<le> 122) \<or> (65 \<le> n \<and> n \<le> 90) \<or> (48 \<le> n \<and> n \<le> 57) \<or>
        c = CHR ''_'' \<or> c = CHR ''-'')"

fun dropPrefix :: "string \<Rightarrow> string \<Rightarrow> string option" where
  "dropPrefix [] s = Some s"
| "dropPrefix (p # ps) [] = None"
| "dropPrefix (p # ps) (c # cs) = (if p = c then dropPrefix ps cs else None)"

text \<open>One alternative at one position: the literal, then \<^verbatim>\<open>([a-zA-Z0-9_-]+)\<close>.\<close>

definition matchAlt :: "string \<Rightarrow> string \<Rightarrow> string option" where
  "matchAlt lit s =
     (case dropPrefix lit s of
        None \<Rightarrow> None
      | Some r \<Rightarrow> (if takeWhile isIdChar r = [] then None else Some (takeWhile isIdChar r)))"

definition matchHere :: "string \<Rightarrow> string option" where
  "matchHere s =
     (case matchAlt ''youtube.com/watch?v='' s of
        Some g \<Rightarrow> Some g
      | None \<Rightarrow> matchAlt ''youtu.be/'' s)"

text \<open>\<^verbatim>\<open>url.match(regex)\<close>: the capture group of the leftmost match, or \<open>None\<close> for null.\<close>

fun youtubeRegex :: "string \<Rightarrow> string option" where
  "youtubeRegex [] = matchHere []"
| "youtubeRegex (c # cs) =
     (case matchHere (c # cs) of Some g \<Rightarrow> Some g | None \<Rightarrow> youtubeRegex cs)"

definition isYouTubeUrl :: "string \<Rightarrow> bool" where
  "isYouTubeUrl url = (youtubeRegex url \<noteq> None)"

definition getYouTubeVideoId :: "string \<Rightarrow> string option" where
  "getYouTubeVideoId url = youtubeRegex url"

text \<open>The add-song form (\<^verbatim>\<open>convertYouTubeUrl\<close> in the \<^verbatim>\<open>NewSong\<close> component).\<close>

definition convertYouTubeUrl :: "string \<Rightarrow> string" where
  "convertYouTubeUrl url =
     (case youtubeRegex url of
        Some videoId \<Rightarrow> ''https://www.youtube.com/watch?v='' @ videoId
      | None \<Rightarrow> url)"

text \<open>The source kind of a song, derived from its url as \<^verbatim>\<open>setPlaying\<close> does.\<close>

datatype song_type = Audio | Youtube

definition classify :: "string \<Rightarrow> song_type" where
  "classify url = (if isYouTubeUrl url then Youtube else Audio)"

section \<open>Data of the playback engine\<close>

record song =
  song_name :: string
  song_url :: string
  song_author :: string
  isCustom :: bool

text \<open>
  JavaScript errors the engine can meet: a call of a method the player object does not
  have (\<open>TypeError\<close>), a rejected \<^verbatim>\<open>context.resume()\<close> or \<^verbatim>\<open>audio.play()\<close>
  (\<open>NotAllowedError\<close>), \<^verbatim>\<open>oscillator.stop()\<close> before \<^verbatim>\<open>start()\<close>
  (\<open>InvalidStateError\<close>), and a media volume outside 0..1 (\<open>IndexSizeError\<close>).
  A synchronous function either returns or throws; the state reached at the throw is
  kept, since the assignments made before it stay in force.
\<close>

datatype js_error = TypeError | NotAllowedError | InvalidStateError | IndexSizeError

datatype 'a completion = Returns 'a | Throws js_error 'a

fun stateOf :: "'a completion \<Rightarrow> 'a" where
  "stateOf (Returns s) = s"
| "stateOf (Throws e s) = s"

fun thenDo :: "'a completion \<Rightarrow> ('a \<Rightarrow> 'a completion) \<Rightarrow> 'a completion" where
  "thenDo (Returns s) f = f s"
| "thenDo (Throws e s) f = Throws e s"

text \<open>An \<^verbatim>\<open>async\<close> function returns a promise, which is fulfilled or rejected.\<close>

datatype settled = Fulfilled | Rejected js_error

text \<open>
  The embedded player object. Its API methods (\<^verbatim>\<open>playVideo\<close>, \<^verbatim>\<open>getPlayerState\<close>,
  \<^verbatim>\<open>stopVideo\<close>, \<^verbatim>\<open>loadVideoById\<close>, ...) are attached to the object together, some
  time after \<^verbatim>\<open>new YT.Player\<close> returns; the engine's guards of the form
  \<^verbatim>\<open>youtubePlayer && youtubePlayer.playVideo\<close> test for them, and \<open>apiReady\<close> is that
  test. \<^verbatim>\<open>destroy\<close> is a method of the player class itself. \<open>playerState\<close> is
  what \<^verbatim>\<open>getPlayerState()\<close> returns; the player changes it when it reports a state
  change. \<open>playerVolume\<close> is the native 0..100 volume.
\<close>

datatype yt_state = UNSTARTED | ENDED | PLAYING | PAUSED | BUFFERING | CUED

record yt_player =
  apiReady :: bool
  playerState :: yt_state
  playerVolume :: real
  loadedVideo :: "string option"
  destroyed :: bool

text \<open>The state of the audio context; the engine never closes it.\<close>

datatype context_state = Suspended | Running

datatype audio_event = EvTimeupdate | EvPlay | EvPause | EvEnded

datatype handler = HOnTimeUpdate | HOnStateChange | HOnEnded

text \<open>The oscillator node with the \<^verbatim>\<open>_animationId\<close> property the engine hangs on it.\<close>

record oscillator_node =
  oscStarted :: bool
  animationIdProp :: "nat option"

datatype timeout_callback = ResumePlay | InitPlayer

datatype analyser_input = MediaElementSource | SilentGain real

text \<open>Commands the engine issues to its collaborators, in the order issued.\<close>

datatype call =
    AudioPause | AudioPlay | AudioSetSrc string | ContextResume
  | YtPlayVideo | YtPauseVideo | YtStopVideo | YtLoadVideoById string | YtSetVolume real
  | YtDestroy
  | OscStart | OscStop | OscDisconnect
  | RequestAnimationFrame nat | CancelAnimationFrame nat
  | SetInterval nat | ClearInterval nat | SetTimeout nat
  | NotifyStateChange | NotifyTimeUpdate | NotifyNext "song option"

text \<open>
  Modelled from the spec: the queue manager (\<^verbatim>\<open>@/lib/queue-manager\<close>) is not among the
  sources. Its state is the ordered song list with the current position; what \<^verbatim>\<open>next()\<close>
  and \<^verbatim>\<open>setSongs()\<close> select is a parameter of the engine's model (\<open>queueNext\<close> below).
\<close>

record queue_state =
  songs :: "song list"
  currentIndex :: "nat option"

text \<open>
  The closure variables of \<^verbatim>\<open>createMusicManager\<close>, the parts of the audio element, the
  audio context and the browser's timers the engine reads or writes, and the log of calls.
  Timer and animation-frame handles are positive numbers, so a stored handle is truthy.
  \<open>pendingFrames\<close> holds, for every scheduled \<^verbatim>\<open>updateVisualizationData\<close> callback,
  its handle and the \<^verbatim>\<open>timeOffset\<close> of the closure it belongs to.
  \<open>awaitingResume\<close> counts the calls of \<^verbatim>\<open>play()\<close> that are suspended at
  \<^verbatim>\<open>await context.resume()\<close>. Calls of the player's methods return; what the player
  library does with them is not in the sources.
\<close>

record engine =
  youtubePlayer :: "yt_player option"
  currentSongType :: song_type
  youtubeTimeUpdateInterval :: "nat option"
  oscillator :: "oscillator_node option"
  audioSrc :: string
  audioPaused :: bool
  audioVolume :: real
  audioListeners :: "(audio_event \<times> handler) list"
  contextState :: context_state
  analyserInputs :: "analyser_input list"
  activeIntervals :: "nat list"
  pendingTimeouts :: "(nat \<times> timeout_callback) list"
  pendingFrames :: "(nat \<times> real) list"
  awaitingResume :: nat
  nextHandle :: nat
  apiReadyCallback :: bool
  queue :: queue_state
  calls :: "call list"

text \<open>What the environment answers while an operation runs.\<close>

record env =
  resumeOk :: bool
  playOk :: bool
  queueNext :: "queue_state \<Rightarrow> queue_state \<times> song option"
  ytApiLoaded :: bool

text \<open>What \<^verbatim>\<open>updateVisualizationData\<close> reads: the analyser's bin count, the context's
  sample rate, and the values \<^verbatim>\<open>Math.sin\<close> and \<^verbatim>\<open>Math.random\<close> return (the latter
  by bin). Numbers are idealised as reals.\<close>

record frame_env =
  frequencyBinCount :: nat
  sampleRate :: real
  mathSin :: "real \<Rightarrow> real"
  mathRandom :: "nat \<Rightarrow> real"

definition logCall :: "call \<Rightarrow> engine \<Rightarrow> engine" where
  "logCall c s = s\<lparr>calls := calls s @ [c]\<rparr>"

definition clearIntervalH :: "nat \<Rightarrow> engine \<Rightarrow> engine" where
  "clearIntervalH h s =
     logCall (ClearInterval h) (s\<lparr>activeIntervals := removeAll h (activeIntervals s)\<rparr>)"

definition cancelAnimationFrameH :: "nat \<Rightarrow> engine \<Rightarrow> engine" where
  "cancelAnimationFrameH h s =
     logCall (CancelAnimationFrame h)
       (s\<lparr>pendingFrames := filter (\<lambda>f. fst f \<noteq> h) (pendingFrames s)\<rparr>)"

text \<open>The player a guard \<^verbatim>\<open>currentSongType === 'youtube' && youtubePlayer &&
  youtubePlayer.<method>\<close> lets through.\<close>

definition activePlayer :: "engine \<Rightarrow> yt_player option" where
  "activePlayer s =
     (if currentSongType s = Youtube then
        (case youtubePlayer s of
           Some p \<Rightarrow> (if apiReady p then Some p else None)
         | None \<Rightarrow> None)
      else None)"


section \<open>The synthetic frequency generator\<close>

text \<open>
  One bin of the frame \<^verbatim>\<open>updateVisualizationData\<close> builds: the layered amplitude by
  frequency band, the random jitter, the boost while \<^verbatim>\<open>beatPhase > 0.7\<close>. \<open>t\<close> is
  \<^verbatim>\<open>timeOffset\<close> after its increment.
\<close>

definition amplitude :: "frame_env \<Rightarrow> real \<Rightarrow> nat \<Rightarrow> real" where
  "amplitude fe t i =
     (let bufferLength = frequencyBinCount fe;
          frequency = (real i / real bufferLength) * (sampleRate fe / 2);
          a0 = (if frequency < 200 then 120 + mathSin fe (t * 2 + real i * 0.1) * 60
                else if frequency < 2000 then 100 + mathSin fe (t * 1.5 + real i * 0.05) * 40
                else if frequency < 8000 then 80 + mathSin fe (t * 3 + real i * 0.02) * 30
                else 40 + mathSin fe (t * 4 + real i * 0.01) * 20);
          a1 = a0 + (mathRandom fe i - 0.5) * 20;
          beatPhase = mathSin fe (t * 0.3) * 0.5 + 0.5
      in if beatPhase > 0.7 then a1 * 1.5 else a1)"

text \<open>\<^verbatim>\<open>Math.max(0, Math.min(255, amplitude))\<close>, and the store into a
  \<^verbatim>\<open>Uint8Array\<close> element (truncation towards zero, modulo 256).\<close>

definition clampByte :: "real \<Rightarrow> real" where
  "clampByte a = max 0 (min 255 a)"

definition toUint8 :: "real \<Rightarrow> nat" where
  "toUint8 x = nat ((if x < 0 then - \<lfloor>- x\<rfloor> else \<lfloor>x\<rfloor>) mod 256)"

definition makeFrame :: "frame_env \<Rightarrow> real \<Rightarrow> nat list" where
  "makeFrame fe t =
     map (\<lambda>i. toUint8 (clampByte (amplitude fe t i))) [0..<frequencyBinCount fe]"

text \<open>
  One run of the callback for the closure whose \<^verbatim>\<open>timeOffset\<close> is \<open>t\<close>. The source
  fills the local \<^verbatim>\<open>dataArray\<close> and then only requests the next animation frame; the
  array is returned here beside the state so that its contents can be stated.
\<close>

definition updateVisualizationData ::
    "frame_env \<Rightarrow> real \<Rightarrow> engine \<Rightarrow> engine \<times> nat list option" where
  "updateVisualizationData fe t s =
     (case oscillator s of
        None \<Rightarrow> (s, None)
      | Some osc \<Rightarrow>
          (let t' = t + 0.1;
               dataArray = makeFrame fe t';
               h = nextHandle s
           in (logCall (RequestAnimationFrame h)
                 (s\<lparr>pendingFrames := pendingFrames s @ [(h, t')], nextHandle := Suc h\<rparr>),
               Some dataArray)))"

text \<open>
  \<^verbatim>\<open>stopYouTubeVisualization\<close>. The \<^verbatim>\<open>try\<close> block cancels the frame named by
  \<^verbatim>\<open>_animationId\<close> when that property is set, then stops and disconnects the oscillator;
  \<^verbatim>\<open>stop()\<close> throws before \<^verbatim>\<open>start()\<close>, and the \<^verbatim>\<open>catch\<close> swallows it.
\<close>

definition stopYouTubeVisualization :: "engine \<Rightarrow> engine" where
  "stopYouTubeVisualization s =
     (case oscillator s of
        None \<Rightarrow> s
      | Some osc \<Rightarrow>
          (let s1 = (case animationIdProp osc of
                       Some h \<Rightarrow> cancelAnimationFrameH h s
                     | None \<Rightarrow> s);
               s2 = (if oscStarted osc then logCall OscDisconnect (logCall OscStop s1)
                     else s1)
           in s2\<lparr>oscillator := None\<rparr>))"

text \<open>
  \<^verbatim>\<open>startYouTubeVisualization\<close>. The local \<^verbatim>\<open>animationId\<close> is still unassigned when
  it is copied to \<^verbatim>\<open>oscillator._animationId\<close> (the first frame is requested only
  afterwards, inside \<^verbatim>\<open>updateVisualizationData()\<close>), so the property is undefined.
  The oscillator feeds the analyser through a gain node of gain 0.
\<close>

definition startYouTubeVisualization :: "frame_env \<Rightarrow> engine \<Rightarrow> engine" where
  "startYouTubeVisualization fe s =
     (let s1 = (if oscillator s \<noteq> None then stopYouTubeVisualization s else s);
          s2 = logCall OscStart
                 (s1\<lparr>oscillator := Some \<lparr>oscStarted = True, animationIdProp = None\<rparr>,
                     analyserInputs := analyserInputs s1 @ [SilentGain 0]\<rparr>)
      in fst (updateVisualizationData fe 0 s2))"

text \<open>An animation frame: the browser runs the callbacks that were pending when the
  frame began, each once.\<close>

fun runFrameCallbacks :: "frame_env \<Rightarrow> (nat \<times> real) list \<Rightarrow> engine \<Rightarrow> engine" where
  "runFrameCallbacks fe [] s = s"
| "runFrameCallbacks fe (f # fs) s =
     runFrameCallbacks fe fs (fst (updateVisualizationData fe (snd f) s))"

definition animationFrame :: "frame_env \<Rightarrow> engine \<Rightarrow> engine" where
  "animationFrame fe s = runFrameCallbacks fe (pendingFrames s) (s\<lparr>pendingFrames := []\<rparr>)"

section \<open>The manager's operations\<close>

definition isPaused :: "engine \<Rightarrow> bool" where
  "isPaused s =
     (case activePlayer s of
        Some p \<Rightarrow> playerState p \<noteq> PLAYING
      | None \<Rightarrow> contextState s = Suspended \<or> audioPaused s)"

definition getVolume :: "engine \<Rightarrow> real" where
  "getVolume s =
     (case activePlayer s of
        Some p \<Rightarrow> playerVolume p / 100
      | None \<Rightarrow> audioVolume s)"

text \<open>The setter of \<^verbatim>\<open>audio.volume\<close> throws for a value outside 0..1.\<close>

definition setVolume :: "real \<Rightarrow> engine \<Rightarrow> engine completion" where
  "setVolume v s =
     (case activePlayer s of
        Some p \<Rightarrow>
          Returns (logCall (YtSetVolume (v * 100))
                     (s\<lparr>youtubePlayer := Some (p\<lparr>playerVolume := v * 100\<rparr>)\<rparr>))
      | None \<Rightarrow>
          (if 0 \<le> v \<and> v \<le> 1 then Returns (s\<lparr>audioVolume := v\<rparr>)
           else Throws IndexSizeError s))"

text \<open>
  \<^verbatim>\<open>async play()\<close>. On the embedded backend it issues \<^verbatim>\<open>playVideo()\<close> and restarts
  the 250 ms polling interval. On the direct-media backend it resumes a suspended
  context and then plays the element; either promise may be rejected, there is no
  \<^verbatim>\<open>try\<close> around the \<^verbatim>\<open>await\<close>s, and the rejection settles the promise \<^verbatim>\<open>play()\<close>
  returned. A rejected \<^verbatim>\<open>audio.play()\<close> leaves the element's \<^verbatim>\<open>paused\<close> flag as it
  was. \<open>play\<close> is one call together with the settling of the promises it awaits, as
  a caller who waits for the returned promise sees it; \<open>playCall\<close> below is the call
  as it interleaves with the rest of the engine.
\<close>

definition play :: "env \<Rightarrow> engine \<Rightarrow> settled \<times> engine" where
  "play e s =
     (case activePlayer s of
        Some p \<Rightarrow>
          (let s1 = logCall YtPlayVideo s;
               s2 = (case youtubeTimeUpdateInterval s1 of
                       Some h \<Rightarrow> clearIntervalH h s1
                     | None \<Rightarrow> s1);
               h' = nextHandle s2
           in (Fulfilled,
               logCall (SetInterval h')
                 (s2\<lparr>youtubeTimeUpdateInterval := Some h',
                     activeIntervals := activeIntervals s2 @ [h'],
                     nextHandle := Suc h'\<rparr>)))
      | None \<Rightarrow>
          (if contextState s = Suspended \<and> \<not> resumeOk e
           then (Rejected NotAllowedError, logCall ContextResume s)
           else
             (let s1 = (if contextState s = Suspended
                        then logCall ContextResume (s\<lparr>contextState := Running\<rparr>)
                        else s);
                  s2 = logCall AudioPlay s1
              in if playOk e then (Fulfilled, s2\<lparr>audioPaused := False\<rparr>)
                 else (Rejected NotAllowedError, s2))))"

text \<open>
  A call of \<^verbatim>\<open>play()\<close> up to the point where it returns to its caller. On the
  embedded backend nothing is awaited, so the whole body runs. On the direct-media
  backend with a suspended context it requests \<^verbatim>\<open>context.resume()\<close> and suspends at
  the \<^verbatim>\<open>await\<close>; the rest of the body, \<^verbatim>\<open>audio.play()\<close>, runs when the resume
  promise is fulfilled, whatever the engine does in between and whatever song type is
  current then. With a running context \<^verbatim>\<open>audio.play()\<close> is called at once.
\<close>

definition audioPlayNow :: "env \<Rightarrow> engine \<Rightarrow> engine" where
  "audioPlayNow e s =
     (let s1 = logCall AudioPlay s
      in if playOk e then s1\<lparr>audioPaused := False\<rparr> else s1)"

definition playCall :: "env \<Rightarrow> engine \<Rightarrow> engine" where
  "playCall e s =
     (case activePlayer s of
        Some p \<Rightarrow> snd (play e s)
      | None \<Rightarrow>
          (if contextState s = Suspended
           then logCall ContextResume (s\<lparr>awaitingResume := Suc (awaitingResume s)\<rparr>)
           else audioPlayNow e s))"

text \<open>The promises of the requested \<^verbatim>\<open>context.resume()\<close> settle: fulfilled, the context
  runs and every suspended \<^verbatim>\<open>play()\<close> goes on to \<^verbatim>\<open>audio.play()\<close>; rejected, the
  suspended calls end there.\<close>

fun replayPending :: "env \<Rightarrow> nat \<Rightarrow> engine \<Rightarrow> engine" where
  "replayPending e 0 s = s"
| "replayPending e (Suc n) s = replayPending e n (audioPlayNow e s)"

definition resumeSettles :: "env \<Rightarrow> engine \<Rightarrow> engine" where
  "resumeSettles e s =
     (if awaitingResume s = 0 then s
      else if resumeOk e
      then replayPending e (awaitingResume s) (s\<lparr>contextState := Running, awaitingResume := 0\<rparr>)
      else s\<lparr>awaitingResume := 0\<rparr>)"

definition pause :: "engine \<Rightarrow> engine" where
  "pause s =
     (case activePlayer s of
        Some p \<Rightarrow>
          (let s1 = stopYouTubeVisualization (logCall YtPauseVideo s)
           in case youtubeTimeUpdateInterval s1 of
                Some h \<Rightarrow> (clearIntervalH h s1)\<lparr>youtubeTimeUpdateInterval := None\<rparr>
              | None \<Rightarrow> s1)
      | None \<Rightarrow> logCall AudioPause (s\<lparr>audioPaused := True\<rparr>))"


text \<open>
  \<^verbatim>\<open>setPlaying(song)\<close>, in two parts. First the current playback is stopped:
  \<^verbatim>\<open>youtubePlayer.stopVideo()\<close> is called whenever the type is \<^verbatim>\<open>'youtube'\<close> and
  the player object exists, with no test for the method. Then the song is loaded;
  \<^verbatim>\<open>currentSongType = 'youtube'\<close> is assigned before \<^verbatim>\<open>loadVideoById\<close> is called,
  again with no test for the method. The promise of a \<^verbatim>\<open>this.play()\<close> made here is
  dropped, and the handle of the 500 ms timeout is not kept.
\<close>

definition stopCurrent :: "engine \<Rightarrow> engine completion" where
  "stopCurrent s =
     (case (if currentSongType s = Youtube then youtubePlayer s else None) of
        Some p \<Rightarrow>
          (if \<not> apiReady p then Throws TypeError s
           else
             (let s1 = stopYouTubeVisualization (logCall YtStopVideo s)
              in Returns
                   (case youtubeTimeUpdateInterval s1 of
                      Some h \<Rightarrow> (clearIntervalH h s1)\<lparr>youtubeTimeUpdateInterval := None\<rparr>
                    | None \<Rightarrow> s1)))
      | None \<Rightarrow> Returns (logCall AudioPause (s\<lparr>audioPaused := True\<rparr>)))"

definition loadSong :: "env \<Rightarrow> bool \<Rightarrow> song \<Rightarrow> engine \<Rightarrow> engine completion" where
  "loadSong e wasPlaying sg s =
     (if isYouTubeUrl (song_url sg) then
        (case getYouTubeVideoId (song_url sg) of
           None \<Rightarrow> Returns s
         | Some videoId \<Rightarrow>
             (case youtubePlayer s of
                None \<Rightarrow> Returns s
              | Some p \<Rightarrow>
                  (let s1 = s\<lparr>currentSongType := Youtube\<rparr>
                   in if \<not> apiReady p then Throws TypeError s1
                      else
                        (let s2 = logCall (YtLoadVideoById videoId)
                                    (s1\<lparr>youtubePlayer := Some (p\<lparr>loadedVideo := Some videoId\<rparr>)\<rparr>)
                         in if wasPlaying
                            then Returns (logCall (SetTimeout 500)
                                   (s2\<lparr>pendingTimeouts := pendingTimeouts s2 @ [(500, ResumePlay)]\<rparr>))
                            else Returns s2))))
      else
        (let s1 = logCall (AudioSetSrc (song_url sg))
                    (s\<lparr>currentSongType := Audio, audioSrc := song_url sg\<rparr>)
         in if wasPlaying then Returns (playCall e s1) else Returns s1))"

definition setPlaying :: "env \<Rightarrow> song \<Rightarrow> engine \<Rightarrow> engine completion" where
  "setPlaying e sg s =
     (let wasPlaying = \<not> isPaused s
      in thenDo (stopCurrent s) (loadSong e wasPlaying sg))"

text \<open>\<^verbatim>\<open>destroy()\<close>. \<^verbatim>\<open>removeEventListener\<close> of a listener that is not registered
  does nothing, as does \<^verbatim>\<open>clearInterval\<close> of a handle that is not active.\<close>

definition removeEventListener :: "audio_event \<Rightarrow> handler \<Rightarrow> engine \<Rightarrow> engine" where
  "removeEventListener ev h s = s\<lparr>audioListeners := removeAll (ev, h) (audioListeners s)\<rparr>"

definition addEventListener :: "audio_event \<Rightarrow> handler \<Rightarrow> engine \<Rightarrow> engine" where
  "addEventListener ev h s =
     (if (ev, h) \<in> set (audioListeners s) then s
      else s\<lparr>audioListeners := audioListeners s @ [(ev, h)]\<rparr>)"

definition destroy :: "engine \<Rightarrow> engine completion" where
  "destroy s =
     (let s1 = pause s;
          s2 = removeEventListener EvEnded HOnEnded
                 (removeEventListener EvTimeupdate HOnTimeUpdate
                    (removeEventListener EvPause HOnStateChange
                       (removeEventListener EvPlay HOnStateChange s1)));
          s3 = (case youtubeTimeUpdateInterval s2 of
                  Some h \<Rightarrow> clearIntervalH h s2
                | None \<Rightarrow> s2);
          s4 = stopYouTubeVisualization s3
      in case youtubePlayer s4 of
           Some p \<Rightarrow> Returns (logCall YtDestroy (s4\<lparr>youtubePlayer := Some (p\<lparr>destroyed := True\<rparr>)\<rparr>))
         | None \<Rightarrow> Returns s4)"

section \<open>Callbacks and events\<close>

definition onStateChange :: "engine \<Rightarrow> engine" where
  "onStateChange s = logCall NotifyStateChange s"

definition onTimeUpdate :: "engine \<Rightarrow> engine" where
  "onTimeUpdate s =
     (if currentSongType s = Audio then logCall NotifyTimeUpdate s
      else (case youtubePlayer s of
              Some p \<Rightarrow> (if apiReady p then logCall NotifyTimeUpdate s else s)
            | None \<Rightarrow> s))"

text \<open>The queue manager's \<^verbatim>\<open>onUpdate\<close> callback, as \<^verbatim>\<open>createMusicManager\<close> passes it.\<close>

definition onUpdate :: "env \<Rightarrow> song option \<Rightarrow> engine \<Rightarrow> engine completion" where
  "onUpdate e sg s =
     thenDo (case sg of Some x \<Rightarrow> setPlaying e x s | None \<Rightarrow> Returns s)
       (\<lambda>s1. Returns (logCall NotifyTimeUpdate (logCall (NotifyNext sg) s1)))"

text \<open>\<^verbatim>\<open>onEnded\<close>: \<^verbatim>\<open>manager.queueManager.next()\<close>, which moves the queue and calls
  \<^verbatim>\<open>onUpdate\<close> with its selection, then \<^verbatim>\<open>manager.play()\<close>, whose promise is dropped.\<close>

definition onEnded :: "env \<Rightarrow> engine \<Rightarrow> engine completion" where
  "onEnded e s =
     (let (q, sg) = queueNext e (queue s)
      in thenDo (onUpdate e sg (s\<lparr>queue := q\<rparr>)) (\<lambda>s1. Returns (playCall e s1)))"

fun runHandler :: "env \<Rightarrow> handler \<Rightarrow> engine \<Rightarrow> engine completion" where
  "runHandler e HOnTimeUpdate s = Returns (onTimeUpdate s)"
| "runHandler e HOnStateChange s = Returns (onStateChange s)"
| "runHandler e HOnEnded s = onEnded e s"

fun dispatch :: "env \<Rightarrow> handler list \<Rightarrow> engine \<Rightarrow> engine completion" where
  "dispatch e [] s = Returns s"
| "dispatch e (h # hs) s = thenDo (runHandler e h s) (dispatch e hs)"

text \<open>The audio element fires an event: the listeners registered for it run in order.\<close>

definition audioEvent :: "env \<Rightarrow> audio_event \<Rightarrow> engine \<Rightarrow> engine completion" where
  "audioEvent e ev s =
     dispatch e (map snd (filter (\<lambda>l. fst l = ev) (audioListeners s))) s"

text \<open>The embedded player reports a state change (the \<^verbatim>\<open>onStateChange\<close> entry of the
  \<^verbatim>\<open>events\<close> object given to \<^verbatim>\<open>new YT.Player\<close>).\<close>

definition playerStateChange ::
    "env \<Rightarrow> frame_env \<Rightarrow> yt_state \<Rightarrow> engine \<Rightarrow> engine completion" where
  "playerStateChange e fe st s =
     (case youtubePlayer s of
        None \<Rightarrow> Returns s
      | Some p \<Rightarrow>
          (let s1 = s\<lparr>youtubePlayer := Some (p\<lparr>playerState := st\<rparr>)\<rparr>
           in if st = ENDED then onEnded e s1
              else if st = PLAYING then Returns (onStateChange (startYouTubeVisualization fe s1))
              else if st = PAUSED then Returns (onStateChange (stopYouTubeVisualization s1))
              else Returns s1))"

text \<open>The player attaches its API methods (readiness).\<close>

definition playerReady :: "engine \<Rightarrow> engine" where
  "playerReady s =
     (case youtubePlayer s of
        Some p \<Rightarrow> s\<lparr>youtubePlayer := Some (p\<lparr>apiReady := True\<rparr>)\<rparr>
      | None \<Rightarrow> s)"

definition initYouTubePlayer :: "env \<Rightarrow> engine \<Rightarrow> engine" where
  "initYouTubePlayer e s =
     (if \<not> ytApiLoaded e then s\<lparr>apiReadyCallback := True\<rparr>
      else s\<lparr>youtubePlayer :=
               Some \<lparr>apiReady = False, playerState = UNSTARTED, playerVolume = 100,
                     loadedVideo = None, destroyed = False\<rparr>\<rparr>)"

text \<open>\<^verbatim>\<open>window.onYouTubeIframeAPIReady\<close>, when the engine has set it.\<close>

definition youTubeIframeAPIReady :: "engine \<Rightarrow> engine" where
  "youTubeIframeAPIReady s =
     (if apiReadyCallback s
      then logCall (SetTimeout 100)
             (s\<lparr>pendingTimeouts := pendingTimeouts s @ [(100, InitPlayer)]\<rparr>)
      else s)"

text \<open>The \<open>i\<close>-th pending timeout fires.\<close>

definition fireTimeout :: "env \<Rightarrow> nat \<Rightarrow> engine \<Rightarrow> engine" where
  "fireTimeout e i s =
     (if i < length (pendingTimeouts s) then
        (let cb = snd (pendingTimeouts s ! i);
             s1 = s\<lparr>pendingTimeouts := take i (pendingTimeouts s) @ drop (Suc i) (pendingTimeouts s)\<rparr>
         in case cb of
              ResumePlay \<Rightarrow> playCall e s1
            | InitPlayer \<Rightarrow> initYouTubePlayer e s1)
      else s)"

text \<open>The polling interval fires: \<^verbatim>\<open>onTimeUpdate()\<close>, if the interval is still active.\<close>

definition intervalTick :: "nat \<Rightarrow> engine \<Rightarrow> engine" where
  "intervalTick h s = (if h \<in> set (activeIntervals s) then onTimeUpdate s else s)"

text \<open>
  \<^verbatim>\<open>createMusicManager\<close> up to the end of \<^verbatim>\<open>init()\<close>. \<open>ctx\<close> is the state the new
  audio context starts in. \<^verbatim>\<open>queueManager.setSongs(storageManager.loadSongs())\<close> is not
  among the sources: \<open>q\<close> is the queue it leaves and \<open>sel\<close> the argument of the
  \<^verbatim>\<open>onUpdate\<close> call it makes, if it makes one.
\<close>

definition newEngine :: "context_state \<Rightarrow> engine" where
  "newEngine ctx =
     \<lparr>youtubePlayer = None, currentSongType = Audio, youtubeTimeUpdateInterval = None,
      oscillator = None, audioSrc = [], audioPaused = True, audioVolume = 1,
      audioListeners = [], contextState = ctx, analyserInputs = [],
      activeIntervals = [], pendingTimeouts = [], pendingFrames = [], awaitingResume = 0,
      nextHandle = 1,
      apiReadyCallback = False, queue = \<lparr>songs = [], currentIndex = None\<rparr>, calls = []\<rparr>"

definition createMusicManager ::
    "env \<Rightarrow> context_state \<Rightarrow> queue_state \<Rightarrow> song option option \<Rightarrow> engine completion" where
  "createMusicManager e ctx q sel =
     (let s0 = (newEngine ctx)\<lparr>analyserInputs := [MediaElementSource]\<rparr>;
          s1 = addEventListener EvEnded HOnEnded
                 (addEventListener EvPause HOnStateChange
                    (addEventListener EvPlay HOnStateChange
                       (addEventListener EvTimeupdate HOnTimeUpdate s0)));
          s2 = s1\<lparr>queue := q\<rparr>
      in thenDo (case sel of Some sg \<Rightarrow> onUpdate e sg s2 | None \<Rightarrow> Returns s2)
           (\<lambda>s3. Returns (initYouTubePlayer e s3)))"


section \<open>Tracked timers\<close>

text \<open>No polling interval is active but the one whose handle the engine holds.\<close>

definition timersTracked :: "engine \<Rightarrow> bool" where
  "timersTracked s =
     (case youtubeTimeUpdateInterval s of
        Some h \<Rightarrow> removeAll h (activeIntervals s) = []
      | None \<Rightarrow> activeIntervals s = [])"

section \<open>Histories of the engine\<close>

text \<open>
  Everything that can happen to an engine after \<^verbatim>\<open>createMusicManager\<close> returned: a
  call of one of the manager's operations, or an event of the audio element, the
  audio context, the embedded player, a timer or the animation clock. An exception leaves the state reached
  at the throw. \<open>wellFormed\<close> is kept by every step: the only interval that may be
  active is the one whose handle the engine holds, and the song type is
  \<^verbatim>\<open>'youtube'\<close> only when a player object exists.
\<close>

datatype action =
    DoPlay env | DoPause | DoSetPlaying env song | DoDestroy | DoSetVolume real
  | AudioFires env audio_event | PlayerReports env frame_env yt_state | PlayerBecomesReady
  | IframeApiReady | TimeoutFires env nat | IntervalFires nat | FrameFires frame_env
  | ResumeSettles env

fun step :: "action \<Rightarrow> engine \<Rightarrow> engine" where
  "step (DoPlay e) s = playCall e s"
| "step DoPause s = pause s"
| "step (DoSetPlaying e sg) s = stateOf (setPlaying e sg s)"
| "step DoDestroy s = stateOf (destroy s)"
| "step (DoSetVolume v) s = stateOf (setVolume v s)"
| "step (AudioFires e ev) s = stateOf (audioEvent e ev s)"
| "step (PlayerReports e fe st) s = stateOf (playerStateChange e fe st s)"
| "step PlayerBecomesReady s = playerReady s"
| "step IframeApiReady s = youTubeIframeAPIReady s"
| "step (TimeoutFires e i) s = fireTimeout e i s"
| "step (IntervalFires h) s = intervalTick h s"
| "step (FrameFires fe) s = animationFrame fe s"
| "step (ResumeSettles e) s = resumeSettles e s"

fun run :: "action list \<Rightarrow> engine \<Rightarrow> engine" where
  "run [] s = s"
| "run (a # as) s = run as (step a s)"

definition wellFormed :: "engine \<Rightarrow> bool" where
  "wellFormed s = (timersTracked s \<and> (youtubePlayer s = None \<longrightarrow> currentSongType s = Audio))"

section \<open>Example inputs\<close>

text \<open>Concrete environments, songs and engine states at which the theorems below are
  instantiated: an engine playing an embedded video (interval 1 active, generator
  running, one frame callback pending) and an engine playing a file.\<close>

definition envOk :: env where
  "envOk = \<lparr>resumeOk = True, playOk = True, queueNext = (\<lambda>q. (q, None)), ytApiLoaded = True\<rparr>"

definition videoSong :: song where
  "videoSong = \<lparr>song_name = ''video'', song_url = ''https://youtu.be/XYZ123'',
     song_author = ''User'', isCustom = True\<rparr>"

definition fileSong :: song where
  "fileSong = \<lparr>song_name = ''file'', song_url = ''a.mp3'', song_author = ''User'',
     isCustom = True\<rparr>"

definition readyPlayer :: yt_player where
  "readyPlayer = \<lparr>apiReady = True, playerState = PLAYING, playerVolume = 100,
     loadedVideo = Some ''XYZ123'', destroyed = False\<rparr>"

definition playingVideo :: engine where
  "playingVideo =
     \<lparr>youtubePlayer = Some readyPlayer, currentSongType = Youtube,
      youtubeTimeUpdateInterval = Some 1,
      oscillator = Some \<lparr>oscStarted = True, animationIdProp = None\<rparr>,
      audioSrc = [], audioPaused = True, audioVolume = 1,
      audioListeners = [(EvTimeupdate, HOnTimeUpdate), (EvPlay, HOnStateChange),
        (EvPause, HOnStateChange), (EvEnded, HOnEnded)],
      contextState = Running, analyserInputs = [MediaElementSource, SilentGain 0],
      activeIntervals = [1], pendingTimeouts = [], pendingFrames = [(2, 1 / 10)],
      awaitingResume = 0, nextHandle = 3, apiReadyCallback = False,
      queue = \<lparr>songs = [videoSong, fileSong], currentIndex = Some 0\<rparr>, calls = []\<rparr>"

definition playingFile :: engine where
  "playingFile =
     (newEngine Running)\<lparr>audioSrc := ''a.mp3'', audioPaused := False,
        apiReadyCallback := True,
        audioListeners := [(EvTimeupdate, HOnTimeUpdate), (EvPlay, HOnStateChange),
          (EvPause, HOnStateChange), (EvEnded, HOnEnded)],
        analyserInputs := [MediaElementSource],
        queue := \<lparr>songs = [fileSong, videoSong], currentIndex = Some 0\<rparr>\<rparr>"

definition bufferingVideo :: engine where
  "bufferingVideo = playingVideo\<lparr>youtubePlayer := Some (readyPlayer\<lparr>playerState := BUFFERING\<rparr>)\<rparr>"

definition envNoGesture :: env where
  "envNoGesture = \<lparr>resumeOk = False, playOk = False, queueNext = (\<lambda>q. (q, None)),
     ytApiLoaded = True\<rparr>"

definition pausedFile :: engine where
  "pausedFile = playingFile\<lparr>audioPaused := True, contextState := Suspended\<rparr>"

definition frameEnv :: frame_env where
  "frameEnv = \<lparr>frequencyBinCount = 4, sampleRate = 48000, mathSin = sin,
     mathRandom = (\<lambda>i. 1 / 2)\<rparr>"

definition switchedToFile :: engine where
  "switchedToFile =
     stateOf (setPlaying envOk fileSong
       (stateOf (playerStateChange envOk frameEnv BUFFERING
          (stateOf (setPlaying envOk videoSong playingVideo)))))"

definition destroyedWhilePending :: engine where
  "destroyedWhilePending = stateOf (destroy (stateOf (setPlaying envOk videoSong playingVideo)))"

text \<open>
  Modelled from the spec: \<^verbatim>\<open>next()\<close> of the queue manager, which is not among the
  sources, with the policy the spec names as its example (wrap to index 0). It gives
  the new queue and the song handed to \<^verbatim>\<open>onUpdate\<close>, none for an empty list.
\<close>

definition queueNextWrap :: "queue_state \<Rightarrow> queue_state \<times> song option" where
  "queueNextWrap q =
     (if songs q = [] then (q\<lparr>currentIndex := None\<rparr>, None)
      else
        (let i = (case currentIndex q of
                    None \<Rightarrow> 0
                  | Some j \<Rightarrow> (if Suc j < length (songs q) then Suc j else 0))
         in (q\<lparr>currentIndex := Some i\<rparr>, Some (songs q ! i))))"

definition envWrap :: env where
  "envWrap = envOk\<lparr>queueNext := queueNextWrap\<rparr>"

definition endedFile :: engine where
  "endedFile = playingFile\<lparr>audioPaused := True,
     youtubePlayer := Some (readyPlayer\<lparr>playerState := UNSTARTED, loadedVideo := None\<rparr>)\<rparr>"

definition endedFileNoPlayer :: engine where
  "endedFileNoPlayer = playingFile\<lparr>audioPaused := True\<rparr>"

text \<open>An engine whose player object exists but has not reported ready, after a
  \<^verbatim>\<open>setPlaying\<close> of a video (which set the type and threw at \<^verbatim>\<open>loadVideoById\<close>) and a
  \<^verbatim>\<open>play()\<close> (which, finding no \<^verbatim>\<open>playVideo\<close>, played the audio element).\<close>

definition unreadyPlayerPlaying :: engine where
  "unreadyPlayerPlaying =
     run [DoPlay envOk, DoSetPlaying envOk videoSong, DoPlay envOk]
       (stateOf (createMusicManager envOk Running
          \<lparr>songs = [fileSong, videoSong], currentIndex = Some 0\<rparr> (Some (Some fileSong))))"

text \<open>A video was playing with the audio context still suspended; the user switches to a
  file and at once to a video, and only then the resume requested by the first switch
  is fulfilled.\<close>

definition overtakenResume :: engine where
  "overtakenResume =
     run [DoSetPlaying envOk fileSong, DoSetPlaying envOk videoSong, ResumeSettles envOk]
       (playingVideo\<lparr>contextState := Suspended\<rparr>)"

section \<open>Properties of the URL classification\<close>

lemma dropPrefix_append: "dropPrefix p (p @ s) = Some s"
  by (induction p) auto

lemma dropPrefix_SomeD: "dropPrefix p s = Some r \<Longrightarrow> s = p @ r"
  by (induction p s rule: dropPrefix.induct) (auto split: if_splits)

lemma takeWhile_id_nonempty:
  "vid \<noteq> [] \<Longrightarrow> list_all isIdChar vid \<Longrightarrow> takeWhile isIdChar (vid @ rest) \<noteq> []"
  by (cases vid) auto

lemma takeWhile_id_exact:
  "list_all isIdChar vid \<Longrightarrow> rest = [] \<or> \<not> isIdChar (hd rest) \<Longrightarrow>
   takeWhile isIdChar (vid @ rest) = vid"
  by (induction vid) (auto simp: neq_Nil_conv intro: takeWhile_eq_Nil_iff[THEN iffD2])

lemma matchAlt_lit:
  "vid \<noteq> [] \<Longrightarrow> list_all isIdChar vid \<Longrightarrow>
   matchAlt lit (lit @ vid @ rest) = Some (takeWhile isIdChar (vid @ rest))"
  by (simp add: matchAlt_def dropPrefix_append takeWhile_id_nonempty)

lemma matchAlt_SomeD:
  "matchAlt lit s = Some g \<Longrightarrow>
   \<exists>rest. s = lit @ g @ rest \<and> g \<noteq> [] \<and> list_all isIdChar g \<and> (rest = [] \<or> \<not> isIdChar (hd rest))"
  apply (auto simp: matchAlt_def split: option.splits if_splits dest!: dropPrefix_SomeD)
  subgoal for r
    apply (rule exI[of _ "dropWhile isIdChar r"])
    apply (auto simp: list_all_iff dest: set_takeWhileD)
    by (metis hd_dropWhile dropWhile_eq_Nil_conv)
  done

lemma matchHere_long:
  "vid \<noteq> [] \<Longrightarrow> list_all isIdChar vid \<Longrightarrow>
   matchHere (''youtube.com/watch?v='' @ vid @ rest) = Some (takeWhile isIdChar (vid @ rest))"
  using matchAlt_lit[of vid "''youtube.com/watch?v=''" rest] by (simp add: matchHere_def)

lemma matchAlt_long_short: "matchAlt ''youtube.com/watch?v='' (''youtu.be/'' @ s) = None"
  by (simp add: matchAlt_def)

lemma matchHere_short:
  "vid \<noteq> [] \<Longrightarrow> list_all isIdChar vid \<Longrightarrow>
   matchHere (''youtu.be/'' @ vid @ rest) = Some (takeWhile isIdChar (vid @ rest))"
  using matchAlt_lit[of vid "''youtu.be/''" rest] matchAlt_long_short[of "vid @ rest"]
  by (simp add: matchHere_def)

lemma matchHere_not_y: "c \<noteq> CHR ''y'' \<Longrightarrow> matchHere (c # cs) = None"
  by (simp add: matchHere_def matchAlt_def)

lemma youtubeRegex_skip: "CHR ''y'' \<notin> set pre \<Longrightarrow> youtubeRegex (pre @ s) = youtubeRegex s"
  by (induction pre) (auto simp: matchHere_not_y)

lemma youtubeRegex_here: "matchHere s = Some g \<Longrightarrow> youtubeRegex s = Some g"
  by (cases s) auto

lemma youtubeRegex_found: "matchHere s \<noteq> None \<Longrightarrow> youtubeRegex (pre @ s) \<noteq> None"
  by (induction pre) (auto simp: youtubeRegex_here split: option.splits)

lemma matchHere_SomeD:
  "matchHere s = Some g \<Longrightarrow>
   \<exists>lit rest. (lit = ''youtube.com/watch?v='' \<or> lit = ''youtu.be/'') \<and> s = lit @ g @ rest \<and>
      g \<noteq> [] \<and> list_all isIdChar g \<and> (rest = [] \<or> \<not> isIdChar (hd rest))"
  unfolding matchHere_def
  by (auto split: option.splits dest!: matchAlt_SomeD)

lemma youtubeRegex_SomeD:
  "youtubeRegex url = Some g \<Longrightarrow>
   \<exists>pre lit rest. (lit = ''youtube.com/watch?v='' \<or> lit = ''youtu.be/'') \<and>
      url = pre @ lit @ g @ rest \<and> g \<noteq> [] \<and> list_all isIdChar g \<and>
      (rest = [] \<or> \<not> isIdChar (hd rest))"
proof (induction url)
  case Nil
  then show ?case using matchHere_SomeD[of "[]" g] by auto
next
  case (Cons c cs)
  show ?case
  proof (cases "matchHere (c # cs)")
    case None
    with Cons.prems have "youtubeRegex cs = Some g" by simp
    from Cons.IH[OF this] obtain pre lit rest where
      "(lit = ''youtube.com/watch?v='' \<or> lit = ''youtu.be/'')" "cs = pre @ lit @ g @ rest"
      "g \<noteq> []" "list_all isIdChar g" "(rest = [] \<or> \<not> isIdChar (hd rest))" by blast
    then show ?thesis by (intro exI[of _ "c # pre"] exI[of _ lit] exI[of _ rest]) simp
  next
    case (Some g')
    with Cons.prems have "g' = g" by simp
    with Some matchHere_SomeD[of "c # cs" g] show ?thesis
      by (metis append_Nil)
  qed
qed

lemma youtubeRegex_canonical:
  assumes "vid \<noteq> []" "list_all isIdChar vid" "CHR ''y'' \<notin> set pre"
    "rest = [] \<or> \<not> isIdChar (hd rest)"
  shows "youtubeRegex (pre @ ''youtube.com/watch?v='' @ vid @ rest) = Some vid"
    and "youtubeRegex (pre @ ''youtu.be/'' @ vid @ rest) = Some vid"
proof -
  have t: "takeWhile isIdChar (vid @ rest) = vid"
    by (rule takeWhile_id_exact[OF assms(2,4)])
  have "youtubeRegex (pre @ ''youtube.com/watch?v='' @ vid @ rest) =
        youtubeRegex (''youtube.com/watch?v='' @ vid @ rest)"
    by (rule youtubeRegex_skip[OF assms(3)])
  also have "\<dots> = Some (takeWhile isIdChar (vid @ rest))"
    by (rule youtubeRegex_here[OF matchHere_long[OF assms(1,2)]])
  finally show "youtubeRegex (pre @ ''youtube.com/watch?v='' @ vid @ rest) = Some vid"
    by (simp only: t)
  have "youtubeRegex (pre @ ''youtu.be/'' @ vid @ rest) =
        youtubeRegex (''youtu.be/'' @ vid @ rest)"
    by (rule youtubeRegex_skip[OF assms(3)])
  also have "\<dots> = Some (takeWhile isIdChar (vid @ rest))"
    by (rule youtubeRegex_here[OF matchHere_short[OF assms(1,2)]])
  finally show "youtubeRegex (pre @ ''youtu.be/'' @ vid @ rest) = Some vid"
    by (simp only: t)
qed

lemma convert_canonical:
  assumes "youtubeRegex url = Some vid"
  shows "youtubeRegex (''https://www.youtube.com/watch?v='' @ vid) = Some vid"
proof -
  from youtubeRegex_SomeD[OF assms] have v: "vid \<noteq> []" "list_all isIdChar vid" by auto
  have "youtubeRegex (''https://www.'' @ ''youtube.com/watch?v='' @ vid @ []) = Some vid"
    by (rule youtubeRegex_canonical(1)[OF v]) simp_all
  then show ?thesis by simp
qed

text \<open>
  Claim C7. The source kind is a function of the url alone. A url that contains
  \<^verbatim>\<open>youtube.com/watch?v=<id>\<close> or \<^verbatim>\<open>youtu.be/<id>\<close> (a non-empty id of letters,
  digits, \<open>_\<close> and \<open>-\<close>) is classified as embedded video. For the same id, the
  long form and the short link (after a prefix such as \<^verbatim>\<open>https://www.\<close>, which holds
  no earlier match, and up to the first character that is not an id character) give
  the same extracted id, and the add-song form rewrites both to
  \<^verbatim>\<open>https://www.youtube.com/watch?v=<id>\<close>. Every url classified as embedded video is
  of one of the two forms, is normalised to the canonical form with its id, and the
  canonical form is again embedded video with the same id. Every other url is direct
  media and is left unchanged by the form; the functions are total.
\<close>

theorem C7_url_classification:
  assumes "vid \<noteq> []" and "list_all isIdChar vid" and "CHR ''y'' \<notin> set pre"
    and "rest = [] \<or> \<not> isIdChar (hd rest)"
  shows "classify (anypre @ ''youtube.com/watch?v='' @ vid @ anyrest) = Youtube \<and>
         classify (anypre @ ''youtu.be/'' @ vid @ anyrest) = Youtube \<and>
         getYouTubeVideoId (pre @ ''youtube.com/watch?v='' @ vid @ rest) = Some vid \<and>
         getYouTubeVideoId (pre @ ''youtu.be/'' @ vid @ rest) = Some vid \<and>
         convertYouTubeUrl (pre @ ''youtube.com/watch?v='' @ vid @ rest) =
           ''https://www.youtube.com/watch?v='' @ vid \<and>
         convertYouTubeUrl (pre @ ''youtu.be/'' @ vid @ rest) =
           ''https://www.youtube.com/watch?v='' @ vid \<and>
         (classify url = Youtube \<longrightarrow>
            (\<exists>p i r. i \<noteq> [] \<and> list_all isIdChar i \<and>
               (url = p @ ''youtube.com/watch?v='' @ i @ r \<or> url = p @ ''youtu.be/'' @ i @ r) \<and>
               getYouTubeVideoId url = Some i \<and>
               convertYouTubeUrl url = ''https://www.youtube.com/watch?v='' @ i \<and>
               classify (convertYouTubeUrl url) = Youtube \<and>
               getYouTubeVideoId (convertYouTubeUrl url) = Some i)) \<and>
         (classify url \<noteq> Youtube \<longrightarrow> classify url = Audio \<and> convertYouTubeUrl url = url)"
proof -
  have a1: "classify (anypre @ ''youtube.com/watch?v='' @ vid @ anyrest) = Youtube"
    using youtubeRegex_found[of "''youtube.com/watch?v='' @ vid @ anyrest" anypre]
      matchHere_long[OF assms(1,2), of anyrest]
    by (simp add: classify_def isYouTubeUrl_def)
  have a2: "classify (anypre @ ''youtu.be/'' @ vid @ anyrest) = Youtube"
    using youtubeRegex_found[of "''youtu.be/'' @ vid @ anyrest" anypre]
      matchHere_short[OF assms(1,2), of anyrest]
    by (simp add: classify_def isYouTubeUrl_def)
  note c = youtubeRegex_canonical[OF assms]
  have a3: "getYouTubeVideoId (pre @ ''youtube.com/watch?v='' @ vid @ rest) = Some vid"
    "getYouTubeVideoId (pre @ ''youtu.be/'' @ vid @ rest) = Some vid"
    using c by (simp_all only: getYouTubeVideoId_def)
  have a4: "convertYouTubeUrl (pre @ ''youtube.com/watch?v='' @ vid @ rest) =
           ''https://www.youtube.com/watch?v='' @ vid"
     "convertYouTubeUrl (pre @ ''youtu.be/'' @ vid @ rest) =
           ''https://www.youtube.com/watch?v='' @ vid"
    using c by (simp_all only: convertYouTubeUrl_def option.case)
  have a5: "classify url = Youtube \<longrightarrow>
            (\<exists>p i r. i \<noteq> [] \<and> list_all isIdChar i \<and>
               (url = p @ ''youtube.com/watch?v='' @ i @ r \<or> url = p @ ''youtu.be/'' @ i @ r) \<and>
               getYouTubeVideoId url = Some i \<and>
               convertYouTubeUrl url = ''https://www.youtube.com/watch?v='' @ i \<and>
               classify (convertYouTubeUrl url) = Youtube \<and>
               getYouTubeVideoId (convertYouTubeUrl url) = Some i)"
  proof
    assume "classify url = Youtube"
    then obtain i where i: "youtubeRegex url = Some i"
      by (auto simp: classify_def isYouTubeUrl_def split: if_splits)
    from youtubeRegex_SomeD[OF i] obtain p lit r where
      f: "lit = ''youtube.com/watch?v='' \<or> lit = ''youtu.be/''" "url = p @ lit @ i @ r"
        "i \<noteq> []" "list_all isIdChar i" by blast
    have cv: "convertYouTubeUrl url = ''https://www.youtube.com/watch?v='' @ i"
      using i by (simp only: convertYouTubeUrl_def option.case)
    have r: "youtubeRegex (convertYouTubeUrl url) = Some i"
      using convert_canonical[OF i] cv by simp
    from f have "url = p @ ''youtube.com/watch?v='' @ i @ r \<or> url = p @ ''youtu.be/'' @ i @ r"
      by blast
    with f(3,4) i cv r show "\<exists>p i r. i \<noteq> [] \<and> list_all isIdChar i \<and>
               (url = p @ ''youtube.com/watch?v='' @ i @ r \<or> url = p @ ''youtu.be/'' @ i @ r) \<and>
               getYouTubeVideoId url = Some i \<and>
               convertYouTubeUrl url = ''https://www.youtube.com/watch?v='' @ i \<and>
               classify (convertYouTubeUrl url) = Youtube \<and>
               getYouTubeVideoId (convertYouTubeUrl url) = Some i"
      by (intro exI[of _ p] exI[of _ i] exI[of _ r])
         (simp add: getYouTubeVideoId_def classify_def isYouTubeUrl_def)
  qed
  have a6: "classify url \<noteq> Youtube \<longrightarrow> classify url = Audio \<and> convertYouTubeUrl url = url"
    by (auto simp: classify_def isYouTubeUrl_def convertYouTubeUrl_def split: if_splits)
  from a1 a2 a3 a4 a5 a6 show ?thesis by blast
qed

theorem C7_url_classification_witness:
  "classify ''https://www.youtube.com/watch?v=XYZ123'' = Youtube \<and>
   classify ''https://youtu.be/XYZ123'' = Youtube \<and>
   getYouTubeVideoId ''https://www.youtube.com/watch?v=XYZ123&t=10'' = Some ''XYZ123'' \<and>
   getYouTubeVideoId ''https://youtu.be/XYZ123&t=10'' = Some ''XYZ123'' \<and>
   convertYouTubeUrl ''https://youtu.be/XYZ123&t=10'' = ''https://www.youtube.com/watch?v=XYZ123'' \<and>
   classify ''https://example.org/a.mp3'' = Audio \<and>
   convertYouTubeUrl ''https://example.org/a.mp3'' = ''https://example.org/a.mp3''"
  using C7_url_classification[of "''XYZ123''" "''https://''" "''&t=10''" "''https://www.''" "[]"
      "''https://example.org/a.mp3''"]
  by (simp add: isIdChar_def classify_def isYouTubeUrl_def convertYouTubeUrl_def
      getYouTubeVideoId_def matchHere_def matchAlt_def)

section \<open>Properties of the engine\<close>

lemmas example_defs = envOk_def videoSong_def fileSong_def readyPlayer_def playingVideo_def
  playingFile_def newEngine_def

lemmas url_defs = isYouTubeUrl_def getYouTubeVideoId_def matchHere_def matchAlt_def isIdChar_def

lemmas op_defs = setPlaying_def stopCurrent_def loadSong_def isPaused_def activePlayer_def
  play_def playCall_def audioPlayNow_def pause_def stopYouTubeVisualization_def
  clearIntervalH_def cancelAnimationFrameH_def logCall_def Let_def

lemma activePlayer_SomeD:
  "activePlayer s = Some p \<Longrightarrow> currentSongType s = Youtube \<and> youtubePlayer s = Some p \<and> apiReady p"
  by (auto simp: activePlayer_def split: if_splits option.splits)

lemma activePlayer_eq:
  "currentSongType s' = currentSongType s \<Longrightarrow> youtubePlayer s' = youtubePlayer s \<Longrightarrow>
   activePlayer s' = activePlayer s"
  by (simp add: activePlayer_def)

lemma stopYV_fields:
  "oscillator (stopYouTubeVisualization s) = None"
  "youtubePlayer (stopYouTubeVisualization s) = youtubePlayer s"
  "currentSongType (stopYouTubeVisualization s) = currentSongType s"
  "youtubeTimeUpdateInterval (stopYouTubeVisualization s) = youtubeTimeUpdateInterval s"
  "audioSrc (stopYouTubeVisualization s) = audioSrc s"
  "audioPaused (stopYouTubeVisualization s) = audioPaused s"
  "audioVolume (stopYouTubeVisualization s) = audioVolume s"
  "audioListeners (stopYouTubeVisualization s) = audioListeners s"
  "contextState (stopYouTubeVisualization s) = contextState s"
  "analyserInputs (stopYouTubeVisualization s) = analyserInputs s"
  "activeIntervals (stopYouTubeVisualization s) = activeIntervals s"
  "pendingTimeouts (stopYouTubeVisualization s) = pendingTimeouts s"
  "nextHandle (stopYouTubeVisualization s) = nextHandle s"
  "queue (stopYouTubeVisualization s) = queue s"
  "awaitingResume (stopYouTubeVisualization s) = awaitingResume s"
  by (simp_all add: stopYouTubeVisualization_def cancelAnimationFrameH_def logCall_def Let_def
      split: option.splits)

lemma stopYV_calls: "\<exists>cs. calls (stopYouTubeVisualization s) = calls s @ cs"
  by (simp add: stopYouTubeVisualization_def cancelAnimationFrameH_def logCall_def Let_def
      split: option.splits)

lemma stopCurrent_youtube:
  assumes "currentSongType s = Youtube" "youtubePlayer s = Some p" "apiReady p"
  shows "\<exists>s1 cs. stopCurrent s = Returns s1 \<and> oscillator s1 = None \<and>
           youtubeTimeUpdateInterval s1 = None \<and>
           (\<forall>h. youtubeTimeUpdateInterval s = Some h \<longrightarrow> h \<notin> set (activeIntervals s1)) \<and>
           (timersTracked s \<longrightarrow> activeIntervals s1 = []) \<and>
           calls s1 = calls s @ YtStopVideo # cs \<and>
           currentSongType s1 = Youtube \<and> youtubePlayer s1 = Some p \<and>
           audioPaused s1 = audioPaused s \<and> audioSrc s1 = audioSrc s \<and>
           pendingTimeouts s1 = pendingTimeouts s"
proof -
  let ?a = "stopYouTubeVisualization (logCall YtStopVideo s)"
  obtain cs where cs: "calls ?a = calls s @ YtStopVideo # cs"
    using stopYV_calls[of "logCall YtStopVideo s"] by (auto simp: logCall_def)
  show ?thesis
  proof (cases "youtubeTimeUpdateInterval s")
    case None
    then have "stopCurrent s = Returns ?a"
      using assms by (simp add: stopCurrent_def stopYV_fields logCall_def)
    then show ?thesis using assms None cs
      by (auto simp: stopYV_fields logCall_def timersTracked_def)
  next
    case (Some h)
    let ?b = "(clearIntervalH h ?a)\<lparr>youtubeTimeUpdateInterval := None\<rparr>"
    have "stopCurrent s = Returns ?b"
      using assms Some by (simp add: stopCurrent_def stopYV_fields logCall_def)
    moreover have "calls ?b = calls s @ YtStopVideo # (cs @ [ClearInterval h])"
      using cs by (simp add: clearIntervalH_def logCall_def)
    ultimately show ?thesis using assms Some
      by (auto simp: stopYV_fields logCall_def clearIntervalH_def timersTracked_def)
  qed
qed

lemma stopCurrent_audio:
  assumes "currentSongType s = Audio \<or> youtubePlayer s = None"
  shows "stopCurrent s = Returns (logCall AudioPause (s\<lparr>audioPaused := True\<rparr>))"
  using assms by (auto simp: stopCurrent_def)

lemma stopCurrent_unready:
  assumes "currentSongType s = Youtube" "youtubePlayer s = Some p" "\<not> apiReady p"
  shows "stopCurrent s = Throws TypeError s"
  using assms by (simp add: stopCurrent_def)

lemma playCall_audio_fields:
  assumes "activePlayer s = None"
  shows "oscillator (playCall e s) = oscillator s"
    "youtubeTimeUpdateInterval (playCall e s) = youtubeTimeUpdateInterval s"
    "activeIntervals (playCall e s) = activeIntervals s"
    "youtubePlayer (playCall e s) = youtubePlayer s"
    "currentSongType (playCall e s) = currentSongType s"
    "audioSrc (playCall e s) = audioSrc s"
    "pendingTimeouts (playCall e s) = pendingTimeouts s"
    "pendingFrames (playCall e s) = pendingFrames s"
    "queue (playCall e s) = queue s"
    "audioListeners (playCall e s) = audioListeners s"
  using assms by (simp_all add: playCall_def audioPlayNow_def logCall_def Let_def)

lemma play_calls: "\<exists>cs. calls (snd (play e s)) = calls s @ cs"
  by (simp add: play_def logCall_def clearIntervalH_def Let_def split: option.splits)

lemma playCall_player: "activePlayer s = Some p \<Longrightarrow> playCall e s = snd (play e s)"
  by (simp add: playCall_def)

lemma playCall_calls: "\<exists>cs. calls (playCall e s) = calls s @ cs"
proof (cases "activePlayer s")
  case None
  then show ?thesis by (simp add: playCall_def audioPlayNow_def logCall_def Let_def)
next
  case (Some p)
  then show ?thesis using play_calls[of e s] by (simp add: playCall_def)
qed

lemma loadSong_timers:
  "oscillator (stateOf (loadSong e w sg s)) = oscillator s"
  "youtubeTimeUpdateInterval (stateOf (loadSong e w sg s)) = youtubeTimeUpdateInterval s"
  "activeIntervals (stateOf (loadSong e w sg s)) = activeIntervals s"
proof -
  let ?s1 = "logCall (AudioSetSrc (song_url sg)) (s\<lparr>currentSongType := Audio, audioSrc := song_url sg\<rparr>)"
  have a: "activePlayer ?s1 = None" by (simp add: activePlayer_def logCall_def)
  note f = playCall_audio_fields[OF a, of e]
  show "oscillator (stateOf (loadSong e w sg s)) = oscillator s"
    using f by (simp add: loadSong_def logCall_def Let_def split: option.splits)
  show "youtubeTimeUpdateInterval (stateOf (loadSong e w sg s)) = youtubeTimeUpdateInterval s"
    using f by (simp add: loadSong_def logCall_def Let_def split: option.splits)
  show "activeIntervals (stateOf (loadSong e w sg s)) = activeIntervals s"
    using f by (simp add: loadSong_def logCall_def Let_def split: option.splits)
qed

lemma loadSong_calls: "\<exists>cs. calls (stateOf (loadSong e w sg s)) = calls s @ cs"
proof -
  let ?s1 = "logCall (AudioSetSrc (song_url sg)) (s\<lparr>currentSongType := Audio, audioSrc := song_url sg\<rparr>)"
  obtain cs where "calls (playCall e ?s1) = calls ?s1 @ cs" using playCall_calls by blast
  then show ?thesis
    by (simp add: loadSong_def logCall_def Let_def split: option.splits)
qed

lemma loadSong_ready_Returns:
  assumes "\<forall>p. youtubePlayer s = Some p \<longrightarrow> apiReady p"
  shows "\<exists>s'. loadSong e w sg s = Returns s'"
  using assms by (simp add: loadSong_def Let_def split: option.splits)

lemma loadSong_not_playing:
  "audioPaused (stateOf (loadSong e False sg s)) = audioPaused s"
  by (simp add: loadSong_def logCall_def Let_def split: option.splits)

lemma createMusicManager_Returns:
  "\<exists>s. createMusicManager e ctx q sel = Returns s \<and> audioPaused s \<and> currentSongType s = Audio \<and>
       oscillator s = None \<and> activeIntervals s = [] \<and> youtubeTimeUpdateInterval s = None"
  by (auto simp: createMusicManager_def newEngine_def addEventListener_def onUpdate_def
      setPlaying_def stopCurrent_def loadSong_def isPaused_def activePlayer_def
      initYouTubePlayer_def logCall_def playCall_def audioPlayNow_def Let_def
      split: option.splits if_splits)

text \<open>\<open>play\<close> agrees with \<open>playCall\<close> followed by the settling of the resume it
  requested, when no other call is suspended.\<close>

lemma play_is_call_then_settle:
  assumes "awaitingResume s = 0"
  shows "snd (play e s) =
           (if activePlayer s = None \<and> contextState s = Suspended
            then resumeSettles e (playCall e s) else playCall e s)"
proof -
  show ?thesis
  proof (cases "activePlayer s = None \<and> contextState s = Suspended")
    case False
    then show ?thesis
      by (auto simp: playCall_def play_def audioPlayNow_def Let_def split: option.splits)
  next
    case True
    define t where "t = logCall ContextResume (s\<lparr>awaitingResume := Suc 0\<rparr>)"
    have pc: "playCall e s = t"
      using True assms by (simp add: playCall_def t_def)
    have aw: "awaitingResume t = Suc 0" by (simp add: t_def logCall_def)
    have ok: "t\<lparr>contextState := Running, awaitingResume := 0\<rparr> =
                logCall ContextResume (s\<lparr>contextState := Running\<rparr>)"
      using assms by (intro engine.equality) (simp_all add: t_def logCall_def)
    have no: "t\<lparr>awaitingResume := 0\<rparr> = logCall ContextResume s"
      using assms by (intro engine.equality) (simp_all add: t_def logCall_def)
    have rs: "resumeSettles e t =
        (if resumeOk e then audioPlayNow e (logCall ContextResume (s\<lparr>contextState := Running\<rparr>))
         else logCall ContextResume s)"
      unfolding resumeSettles_def aw ok no by simp
    have "snd (play e s) = resumeSettles e t"
      unfolding rs using True by (simp add: play_def audioPlayNow_def Let_def)
    then show ?thesis using True pc by simp
  qed
qed

text \<open>
  Claim C8. For a volume \<open>v\<close> between 0 and 1 and either backend,
  \<^verbatim>\<open>setVolume(v)\<close> returns and \<^verbatim>\<open>getVolume()\<close> then gives \<open>v\<close>. On the embedded
  backend the player receives \<open>v * 100\<close> and the reading is divided by 100; on the
  direct-media backend the element's volume is \<open>v\<close> itself. Numbers are reals here,
  so the round trip is exact where floating point gives it up to rounding.
\<close>

theorem C8_volume_roundtrip:
  assumes "0 \<le> v" and "v \<le> 1"
  shows "\<exists>s'. setVolume v s = Returns s' \<and> getVolume s' = v \<and>
           currentSongType s' = currentSongType s \<and>
           (case activePlayer s of
              Some p \<Rightarrow> (\<exists>p'. activePlayer s' = Some p' \<and> playerVolume p' = v * 100) \<and>
                         audioVolume s' = audioVolume s
            | None \<Rightarrow> activePlayer s' = None \<and> audioVolume s' = v)"
proof (cases "activePlayer s")
  case None
  let ?s' = "s\<lparr>audioVolume := v\<rparr>"
  have a: "activePlayer ?s' = None" using None activePlayer_eq[of ?s' s] by simp
  have "setVolume v s = Returns ?s'" using None assms by (simp add: setVolume_def)
  moreover have "getVolume ?s' = v" using a by (simp add: getVolume_def)
  ultimately show ?thesis using None a by simp
next
  case (Some p)
  let ?p' = "p\<lparr>playerVolume := v * 100\<rparr>"
  let ?s' = "logCall (YtSetVolume (v * 100)) (s\<lparr>youtubePlayer := Some ?p'\<rparr>)"
  from activePlayer_SomeD[OF Some]
  have a: "activePlayer ?s' = Some ?p'" by (simp add: activePlayer_def logCall_def)
  have "setVolume v s = Returns ?s'" using Some by (simp add: setVolume_def)
  moreover have "getVolume ?s' = v" using a by (simp add: getVolume_def)
  moreover have "currentSongType ?s' = currentSongType s" "audioVolume ?s' = audioVolume s"
    by (simp_all add: logCall_def)
  ultimately show ?thesis using Some a by simp
qed

theorem C8_volume_roundtrip_witness:
  "(0::real) \<le> 3 / 10 \<and> (3::real) / 10 \<le> 1 \<and>
   (\<exists>s'. setVolume (3 / 10) playingVideo = Returns s' \<and> getVolume s' = 3 / 10 \<and>
      map_option playerVolume (youtubePlayer s') = Some 30) \<and>
   (\<exists>s'. setVolume (3 / 10) playingFile = Returns s' \<and> getVolume s' = 3 / 10 \<and>
      audioVolume s' = 3 / 10)"
  using C8_volume_roundtrip[of "3 / 10" playingVideo] C8_volume_roundtrip[of "3 / 10" playingFile]
  by (simp add: example_defs setVolume_def getVolume_def activePlayer_def logCall_def)

lemma loadSong_no_player:
  assumes "isYouTubeUrl (song_url sg)" and "youtubePlayer s = None"
  shows "loadSong e w sg s = Returns s"
  using assms by (simp add: loadSong_def split: option.splits)

text \<open>
  Claim C10. \<^verbatim>\<open>setPlaying\<close> with an embedded-video url while the player object does not
  exist yet: the call returns without an error, pauses the audio element and does
  nothing else. The song type is unchanged, no player appears, nothing is loaded
  (\<^verbatim>\<open>audio.src\<close> is as before), no resume is scheduled, and every operation still
  goes to the audio element, which is paused. In a state the engine can reach
  (\<open>wellFormed\<close>) the type is, and stays, direct media.
\<close>

theorem C10_no_player_no_load:
  assumes "isYouTubeUrl (song_url sg)" and "youtubePlayer s = None"
  shows "\<exists>s'. setPlaying e sg s = Returns s' \<and>
           currentSongType s' = currentSongType s \<and>
           (wellFormed s \<longrightarrow> currentSongType s' = Audio) \<and>
           youtubePlayer s' = None \<and> activePlayer s' = None \<and>
           audioSrc s' = audioSrc s \<and> audioPaused s' \<and> isPaused s' \<and>
           pendingTimeouts s' = pendingTimeouts s \<and>
           calls s' = calls s @ [AudioPause]"
proof -
  let ?s1 = "logCall AudioPause (s\<lparr>audioPaused := True\<rparr>)"
  have np: "youtubePlayer ?s1 = None" using assms(2) by (simp add: logCall_def)
  have "stopCurrent s = Returns ?s1" using stopCurrent_audio[of s] assms(2) by simp
  moreover have "loadSong e (\<not> isPaused s) sg ?s1 = Returns ?s1"
    by (rule loadSong_no_player[OF assms(1) np])
  ultimately have sp: "setPlaying e sg s = Returns ?s1" by (simp add: setPlaying_def)
  have ap: "activePlayer ?s1 = None" using np by (simp add: activePlayer_def)
  have "isPaused ?s1" using ap by (simp add: isPaused_def logCall_def)
  moreover have "currentSongType ?s1 = currentSongType s" "audioSrc ?s1 = audioSrc s"
    "audioPaused ?s1" "pendingTimeouts ?s1 = pendingTimeouts s" "calls ?s1 = calls s @ [AudioPause]"
    by (simp_all add: logCall_def)
  moreover have "wellFormed s \<longrightarrow> currentSongType ?s1 = Audio"
    using assms(2) by (simp add: wellFormed_def logCall_def)
  ultimately show ?thesis using sp np ap by blast
qed

theorem C10_no_player_no_load_witness:
  "isYouTubeUrl (song_url videoSong) \<and> youtubePlayer playingFile = None \<and>
   wellFormed playingFile \<and>
   (\<exists>s'. setPlaying envOk videoSong playingFile = Returns s' \<and>
      currentSongType s' = Audio \<and> youtubePlayer s' = None \<and> audioSrc s' = ''a.mp3'' \<and>
      audioPaused s' \<and> isPaused s' \<and> pendingTimeouts s' = [] \<and> calls s' = [AudioPause])"
  using C10_no_player_no_load[of videoSong playingFile envOk]
  by (simp add: example_defs url_defs op_defs wellFormed_def timersTracked_def)

lemma isPaused_player:
  "activePlayer s = Some p \<Longrightarrow> isPaused s = (playerState p \<noteq> PLAYING)"
  by (simp add: isPaused_def)

text \<open>
  Claim C9. \<^verbatim>\<open>isPaused()\<close> is true of the engine \<^verbatim>\<open>createMusicManager\<close> returns
  (nothing has played yet), after \<^verbatim>\<open>pause()\<close> on the direct-media backend and whenever
  the audio element is paused there, and, with the embedded backend active, exactly
  when the player reports a state other than \<open>PLAYING\<close>: unstarted, ended, paused,
  buffering or cued.
\<close>

theorem C9_isPaused:
  "(\<exists>s0. createMusicManager e ctx q sel = Returns s0 \<and> isPaused s0) \<and>
   (activePlayer s = None \<longrightarrow> isPaused (pause s)) \<and>
   (activePlayer s = None \<and> audioPaused s \<longrightarrow> isPaused s) \<and>
   (\<forall>p. activePlayer s = Some p \<longrightarrow>
      (isPaused s \<longleftrightarrow> playerState p \<noteq> PLAYING) \<and>
      (playerState p \<in> {UNSTARTED, ENDED, PAUSED, BUFFERING, CUED} \<longrightarrow> isPaused s) \<and>
      (\<forall>st. st \<noteq> PLAYING \<longrightarrow> isPaused (s\<lparr>youtubePlayer := Some (p\<lparr>playerState := st\<rparr>)\<rparr>)))"
proof (intro conjI allI impI)
  from createMusicManager_Returns[of e ctx q sel] obtain s0 where
    s0: "createMusicManager e ctx q sel = Returns s0" "audioPaused s0" "currentSongType s0 = Audio"
    by blast
  then have "isPaused s0" by (simp add: isPaused_def activePlayer_def)
  with s0 show "\<exists>s0. createMusicManager e ctx q sel = Returns s0 \<and> isPaused s0" by blast
next
  assume "activePlayer s = None"
  then show "isPaused (pause s)"
    using activePlayer_eq[of "logCall AudioPause (s\<lparr>audioPaused := True\<rparr>)" s]
    by (simp add: pause_def isPaused_def logCall_def)
next
  assume "activePlayer s = None \<and> audioPaused s"
  then show "isPaused s" by (simp add: isPaused_def)
next
  fix p assume "activePlayer s = Some p"
  then show "isPaused s \<longleftrightarrow> playerState p \<noteq> PLAYING" by (simp add: isPaused_def)
next
  fix p assume "activePlayer s = Some p"
    and "playerState p \<in> {UNSTARTED, ENDED, PAUSED, BUFFERING, CUED}"
  then show "isPaused s" by (auto simp: isPaused_def)
next
  fix p st assume a: "activePlayer s = Some p" and st: "st \<noteq> PLAYING"
  from activePlayer_SomeD[OF a]
  have "activePlayer (s\<lparr>youtubePlayer := Some (p\<lparr>playerState := st\<rparr>)\<rparr>) = Some (p\<lparr>playerState := st\<rparr>)"
    by (simp add: activePlayer_def)
  then show "isPaused (s\<lparr>youtubePlayer := Some (p\<lparr>playerState := st\<rparr>)\<rparr>)"
    using st by (simp add: isPaused_def)
qed

theorem C9_isPaused_witness:
  "isPaused (stateOf (createMusicManager envOk Running \<lparr>songs = [fileSong], currentIndex = Some 0\<rparr>
      (Some (Some fileSong)))) \<and>
   activePlayer playingFile = None \<and> isPaused (pause playingFile) \<and>
   activePlayer bufferingVideo = Some (readyPlayer\<lparr>playerState := BUFFERING\<rparr>) \<and>
   isPaused bufferingVideo \<and>
   isPaused (bufferingVideo\<lparr>youtubePlayer := Some (readyPlayer\<lparr>playerState := ENDED\<rparr>)\<rparr>) \<and>
   \<not> isPaused playingVideo"
  using C9_isPaused[of envOk Running "\<lparr>songs = [fileSong], currentIndex = Some 0\<rparr>"
      "Some (Some fileSong)" playingFile]
    C9_isPaused[of envOk Running "\<lparr>songs = [fileSong], currentIndex = Some 0\<rparr>"
      "Some (Some fileSong)" bufferingVideo]
  by (simp add: example_defs bufferingVideo_def url_defs op_defs createMusicManager_def
      onUpdate_def addEventListener_def initYouTubePlayer_def)

lemma play_player:
  "activePlayer s = Some p \<Longrightarrow> fst (play e s) = Fulfilled"
  by (simp add: play_def Let_def)

lemma play_audio_outcome:
  assumes "activePlayer s = None"
  shows "fst (play e s) =
           (if (contextState s = Suspended \<and> \<not> resumeOk e) \<or> \<not> playOk e
            then Rejected NotAllowedError else Fulfilled)"
    and "fst (play e s) \<noteq> Fulfilled \<Longrightarrow> audioPaused (snd (play e s)) = audioPaused s"
    and "currentSongType (snd (play e s)) = currentSongType s"
    and "youtubePlayer (snd (play e s)) = youtubePlayer s"
  using assms by (auto simp: play_def logCall_def Let_def split: if_splits)

text \<open>
  Claim C4, as the code has it. \<^verbatim>\<open>play()\<close> has no handler for a failed start. Its
  promise is fulfilled or rejected with the error of the rejected
  \<^verbatim>\<open>context.resume()\<close> or \<^verbatim>\<open>audio.play()\<close>; it is rejected exactly when the
  direct-media backend is in use and the resume of a suspended context or the media
  play is refused. Nothing is thrown synchronously. After a rejection the audio
  element's \<^verbatim>\<open>paused\<close> flag is as before, so an engine whose element was paused still
  reports paused. The counterexample is a paused engine in an environment that refuses
  the resume: the promise \<^verbatim>\<open>play()\<close> returns is rejected, not caught.
\<close>

theorem C4_play_rejection:
  "(fst (play e s) = Fulfilled \<or> fst (play e s) = Rejected NotAllowedError) \<and>
   (fst (play e s) = Rejected NotAllowedError \<longleftrightarrow>
      activePlayer s = None \<and> ((contextState s = Suspended \<and> \<not> resumeOk e) \<or> \<not> playOk e)) \<and>
   (fst (play e s) \<noteq> Fulfilled \<longrightarrow>
      audioPaused (snd (play e s)) = audioPaused s \<and>
      (audioPaused s \<longrightarrow> isPaused (snd (play e s))))"
proof (cases "activePlayer s")
  case (Some p)
  then show ?thesis using play_player[OF Some, of e] by simp
next
  case None
  note o = play_audio_outcome[OF None, of e]
  have ap: "activePlayer (snd (play e s)) = None"
    using activePlayer_eq[OF o(3) o(4)] None by simp
  have "fst (play e s) \<noteq> Fulfilled \<longrightarrow> (audioPaused s \<longrightarrow> isPaused (snd (play e s)))"
    using o(2) ap by (simp add: isPaused_def)
  then show ?thesis using o(1) o(2) None by (auto split: if_splits)
qed

theorem C4_play_rejection_witness:
  "fst (play envNoGesture pausedFile) \<noteq> Fulfilled \<and>
   activePlayer pausedFile = None \<and> contextState pausedFile = Suspended \<and>
   \<not> resumeOk envNoGesture \<and> audioPaused pausedFile \<and>
   audioPaused (snd (play envNoGesture pausedFile)) \<and>
   isPaused (snd (play envNoGesture pausedFile)) \<and>
   calls (snd (play envNoGesture pausedFile)) = [ContextResume]"
  using C4_play_rejection[of envNoGesture pausedFile]
  by (simp add: envNoGesture_def pausedFile_def example_defs play_def activePlayer_def
      isPaused_def logCall_def)

theorem C4_play_rejection_counterexample:
  "fst (play envNoGesture pausedFile) = Rejected NotAllowedError"
  by (simp add: envNoGesture_def pausedFile_def example_defs play_def activePlayer_def
      logCall_def)

lemmas engine_defs = op_defs playerStateChange_def destroy_def fireTimeout_def
  removeEventListener_def onStateChange_def

lemma stopCurrent_timeouts: "pendingTimeouts (stateOf (stopCurrent s)) = pendingTimeouts s"
  by (simp add: stopCurrent_def stopYV_fields logCall_def clearIntervalH_def Let_def
      split: option.splits)

lemma play_timeouts: "pendingTimeouts (snd (play e s)) = pendingTimeouts s"
  by (simp add: play_def logCall_def clearIntervalH_def Let_def split: option.splits)

lemma playCall_timeouts: "pendingTimeouts (playCall e s) = pendingTimeouts s"
  by (simp add: playCall_def play_timeouts audioPlayNow_def logCall_def Let_def
      split: option.splits)

lemma loadSong_timeouts:
  "\<exists>ts. pendingTimeouts (stateOf (loadSong e w sg s)) = pendingTimeouts s @ ts"
  by (simp add: loadSong_def playCall_timeouts logCall_def Let_def split: option.splits)

lemma setPlaying_timeouts:
  "\<exists>ts. pendingTimeouts (stateOf (setPlaying e sg s)) = pendingTimeouts s @ ts"
proof (cases "stopCurrent s")
  case (Returns s1)
  then have "pendingTimeouts s1 = pendingTimeouts s" using stopCurrent_timeouts[of s] by simp
  then show ?thesis
    using loadSong_timeouts[of e "\<not> isPaused s" sg s1] Returns by (simp add: setPlaying_def)
next
  case (Throws err s1)
  then have "pendingTimeouts s1 = pendingTimeouts s" using stopCurrent_timeouts[of s] by simp
  then show ?thesis using Throws by (simp add: setPlaying_def)
qed

lemma pause_timeouts: "pendingTimeouts (pause s) = pendingTimeouts s"
  by (simp add: pause_def stopYV_fields logCall_def clearIntervalH_def Let_def
      split: option.splits)

lemma destroy_timeouts: "pendingTimeouts (stateOf (destroy s)) = pendingTimeouts s"
  by (simp add: destroy_def pause_timeouts stopYV_fields removeEventListener_def logCall_def
      clearIntervalH_def Let_def split: option.splits)

lemma play_player_calls:
  assumes "activePlayer s = Some p"
  shows "\<exists>cs. calls (snd (play e s)) = calls s @ YtPlayVideo # cs"
    and "youtubeTimeUpdateInterval (snd (play e s)) \<noteq> None"
  using assms by (simp_all add: play_def logCall_def clearIntervalH_def Let_def split: option.splits)

lemma loadSong_video:
  assumes "isYouTubeUrl (song_url sg)" "youtubePlayer s = Some p" "apiReady p"
  shows "\<exists>vid. getYouTubeVideoId (song_url sg) = Some vid \<and>
           loadSong e w sg s =
             Returns ((if w then (\<lambda>x. logCall (SetTimeout 500)
                         (x\<lparr>pendingTimeouts := pendingTimeouts x @ [(500, ResumePlay)]\<rparr>))
                       else (\<lambda>x. x))
                      (logCall (YtLoadVideoById vid)
                         (s\<lparr>currentSongType := Youtube,
                            youtubePlayer := Some (p\<lparr>loadedVideo := Some vid\<rparr>)\<rparr>)))"
  using assms
  by (auto simp: loadSong_def isYouTubeUrl_def getYouTubeVideoId_def Let_def split: option.splits)


lemma stopCurrent_ready:
  assumes "youtubePlayer s = Some p" "apiReady p"
  shows "\<exists>s1. stopCurrent s = Returns s1 \<and> youtubePlayer s1 = Some p \<and>
           pendingTimeouts s1 = pendingTimeouts s"
proof (cases "currentSongType s")
  case Audio
  then show ?thesis using stopCurrent_audio[of s] assms by (simp add: logCall_def)
next
  case Youtube
  from stopCurrent_youtube[OF Youtube assms] show ?thesis by blast
qed

lemma fireTimeout_last:
  "fireTimeout e (length ts) (s\<lparr>pendingTimeouts := ts @ [(d, ResumePlay)]\<rparr>) =
   playCall e (s\<lparr>pendingTimeouts := ts\<rparr>)"
  by (simp add: fireTimeout_def Let_def)

text \<open>
  Claim C2, as the code has it. When \<^verbatim>\<open>setPlaying\<close> loads an embedded-video song
  while playback was in progress (the player present with its API), it schedules one
  \<^verbatim>\<open>play()\<close> 500 ms later; when that timeout fires, \<^verbatim>\<open>playVideo()\<close> is issued for
  the loaded video. The handle of the timeout is not kept: a later \<^verbatim>\<open>setPlaying\<close> only
  ever adds to the pending timeouts and \<^verbatim>\<open>destroy()\<close> leaves them as they are, so the
  pending resume fires on whatever backend is then active. The counterexample: after a
  switch to a file that left the audio element paused, the stale resume starts the
  file; after \<^verbatim>\<open>destroy()\<close>, it starts a new polling interval.
\<close>

theorem C2_delayed_resume:
  "(isYouTubeUrl (song_url sg) \<and> youtubePlayer s = Some p \<and> apiReady p \<and> \<not> isPaused s \<longrightarrow>
      (\<exists>s' p' cs. setPlaying e sg s = Returns s' \<and>
         pendingTimeouts s' = pendingTimeouts s @ [(500, ResumePlay)] \<and>
         activePlayer s' = Some p' \<and> loadedVideo p' = getYouTubeVideoId (song_url sg) \<and>
         fireTimeout e' (length (pendingTimeouts s)) s' =
           snd (play e' (s'\<lparr>pendingTimeouts := pendingTimeouts s\<rparr>)) \<and>
         calls (fireTimeout e' (length (pendingTimeouts s)) s') = calls s' @ YtPlayVideo # cs \<and>
         pendingTimeouts (fireTimeout e' (length (pendingTimeouts s)) s') = pendingTimeouts s)) \<and>
   (\<exists>ts. pendingTimeouts (stateOf (setPlaying e sg s)) = pendingTimeouts s @ ts) \<and>
   pendingTimeouts (stateOf (destroy s)) = pendingTimeouts s"
proof (intro conjI impI)
  assume a: "isYouTubeUrl (song_url sg) \<and> youtubePlayer s = Some p \<and> apiReady p \<and> \<not> isPaused s"
  then have h: "isYouTubeUrl (song_url sg)" "youtubePlayer s = Some p" "apiReady p" "\<not> isPaused s"
    by auto
  from stopCurrent_ready[OF h(2,3)] obtain s1 where
    s1: "stopCurrent s = Returns s1" "youtubePlayer s1 = Some p"
      "pendingTimeouts s1 = pendingTimeouts s" by blast
  from loadSong_video[OF h(1) s1(2) h(3), of e True] obtain vid where
    vid: "getYouTubeVideoId (song_url sg) = Some vid"
    and ld: "loadSong e True sg s1 =
       Returns (logCall (SetTimeout 500)
         ((logCall (YtLoadVideoById vid)
            (s1\<lparr>currentSongType := Youtube,
                youtubePlayer := Some (p\<lparr>loadedVideo := Some vid\<rparr>)\<rparr>))
          \<lparr>pendingTimeouts := pendingTimeouts s1 @ [(500, ResumePlay)]\<rparr>))"
    by (auto simp: logCall_def)
  let ?p' = "p\<lparr>loadedVideo := Some vid\<rparr>"
  let ?base = "logCall (SetTimeout 500) (logCall (YtLoadVideoById vid)
            (s1\<lparr>currentSongType := Youtube, youtubePlayer := Some ?p'\<rparr>))"
  let ?s' = "?base\<lparr>pendingTimeouts := pendingTimeouts s @ [(500, ResumePlay)]\<rparr>"
  have sp: "setPlaying e sg s = Returns ?s'"
    using s1 ld h(4) by (simp add: setPlaying_def logCall_def)
  have pt: "pendingTimeouts ?s' = pendingTimeouts s @ [(500, ResumePlay)]" by simp
  have ap: "activePlayer ?s' = Some ?p'" using h(3) by (simp add: activePlayer_def logCall_def)
  have lv: "loadedVideo ?p' = getYouTubeVideoId (song_url sg)" using vid by simp
  let ?r = "?s'\<lparr>pendingTimeouts := pendingTimeouts s\<rparr>"
  have apr: "activePlayer ?r = Some ?p'" using h(3) by (simp add: activePlayer_def logCall_def)
  have ft: "fireTimeout e' (length (pendingTimeouts s)) ?s' = snd (play e' ?r)"
    using fireTimeout_last[where e = e' and ts = "pendingTimeouts s" and s = ?base and d = 500]
      playCall_player[OF apr, of e']
    by simp
  from play_player_calls(1)[OF apr, of e'] obtain cs where
    cs: "calls (snd (play e' ?r)) = calls ?r @ YtPlayVideo # cs" by blast
  have c: "calls (fireTimeout e' (length (pendingTimeouts s)) ?s') = calls ?s' @ YtPlayVideo # cs"
    using ft cs by simp
  have t: "pendingTimeouts (fireTimeout e' (length (pendingTimeouts s)) ?s') = pendingTimeouts s"
    using ft play_timeouts[of e' ?r] by simp
  show "\<exists>s' p' cs. setPlaying e sg s = Returns s' \<and>
         pendingTimeouts s' = pendingTimeouts s @ [(500, ResumePlay)] \<and>
         activePlayer s' = Some p' \<and> loadedVideo p' = getYouTubeVideoId (song_url sg) \<and>
         fireTimeout e' (length (pendingTimeouts s)) s' =
           snd (play e' (s'\<lparr>pendingTimeouts := pendingTimeouts s\<rparr>)) \<and>
         calls (fireTimeout e' (length (pendingTimeouts s)) s') = calls s' @ YtPlayVideo # cs \<and>
         pendingTimeouts (fireTimeout e' (length (pendingTimeouts s)) s') = pendingTimeouts s"
    using sp pt ap lv ft c t by blast
next
  show "\<exists>ts. pendingTimeouts (stateOf (setPlaying e sg s)) = pendingTimeouts s @ ts"
    by (rule setPlaying_timeouts)
next
  show "pendingTimeouts (stateOf (destroy s)) = pendingTimeouts s"
    by (rule destroy_timeouts)
qed


theorem C2_delayed_resume_counterexample:
  "pendingTimeouts switchedToFile = [(500, ResumePlay)] \<and>
   currentSongType switchedToFile = Audio \<and> audioPaused switchedToFile \<and>
   audioPaused (fireTimeout envOk 0 switchedToFile) = False \<and>
   pendingTimeouts destroyedWhilePending = [(500, ResumePlay)] \<and>
   activeIntervals destroyedWhilePending = [] \<and>
   activeIntervals (fireTimeout envOk 0 destroyedWhilePending) = [3]"
  by (simp add: switchedToFile_def destroyedWhilePending_def example_defs frameEnv_def
      url_defs engine_defs)

theorem C2_delayed_resume_witness:
  "isYouTubeUrl (song_url videoSong) \<and> youtubePlayer playingVideo = Some readyPlayer \<and>
   apiReady readyPlayer \<and> \<not> isPaused playingVideo \<and>
   (\<exists>s'. setPlaying envOk videoSong playingVideo = Returns s' \<and>
      pendingTimeouts s' = [(500, ResumePlay)] \<and>
      map_option loadedVideo (activePlayer s') = Some (Some ''XYZ123'') \<and>
      pendingTimeouts (fireTimeout envOk 0 s') = [] \<and>
      calls (fireTimeout envOk 0 s') = calls s' @ [YtPlayVideo, SetInterval 3])"
  using C2_delayed_resume[of videoSong playingVideo readyPlayer envOk envOk]
  by (simp add: example_defs url_defs engine_defs)

text \<open>
  Claim C1, evaluated on the code: \<^verbatim>\<open>setPlaying\<close> does not fully stop the previously
  active backend on every call.

  \<^item> Switching from a playing embedded video to a file issues \<^verbatim>\<open>stopVideo()\<close>, stops and
    drops the oscillator and clears the polling interval, but the frame callback of the
    generator stays scheduled: \<^verbatim>\<open>_animationId\<close> was copied while still undefined, so
    \<^verbatim>\<open>cancelAnimationFrame\<close> is never reached.
  \<^item> When the embedded backend is started again before that frame runs (a switch from
    video to video and the player's next \<open>PLAYING\<close> report), the old callback finds an
    oscillator and goes on: two frame loops run from then on.
  \<^item> With the song type \<^verbatim>\<open>'youtube'\<close> and a player object that has not reported ready,
    the unguarded \<^verbatim>\<open>youtubePlayer.stopVideo()\<close> throws a \<^verbatim>\<open>TypeError\<close>: the audio element
    that was playing is not paused and the new song is not loaded.
  \<^item> A \<^verbatim>\<open>play()\<close> suspended at \<^verbatim>\<open>await context.resume()\<close> is overtaken by the next
    \<^verbatim>\<open>setPlaying\<close>: switching from a video to a file and on to a video, with the context
    suspended, ends with the type \<^verbatim>\<open>'youtube'\<close> and the audio element playing the file; a
    further \<^verbatim>\<open>setPlaying\<close> of a video does not pause it.
\<close>

theorem C1_setPlaying_not_fully_stopped:
  "(\<exists>s'. setPlaying envOk fileSong playingVideo = Returns s' \<and> oscillator s' = None \<and>
      youtubeTimeUpdateInterval s' = None \<and> activeIntervals s' = [] \<and>
      pendingFrames s' = [(2, 1 / 10)] \<and>
      calls s' = [YtStopVideo, OscStop, OscDisconnect, ClearInterval 1, AudioSetSrc ''a.mp3'',
        AudioPlay]) \<and>
   pendingFrames (stateOf (playerStateChange envOk frameEnv PLAYING
     (stateOf (setPlaying envOk videoSong playingVideo)))) = [(2, 1 / 10), (3, 1 / 10)] \<and>
   pendingFrames (animationFrame frameEnv (stateOf (playerStateChange envOk frameEnv PLAYING
     (stateOf (setPlaying envOk videoSong playingVideo))))) = [(4, 2 / 10), (5, 2 / 10)] \<and>
   currentSongType unreadyPlayerPlaying = Youtube \<and>
   map_option apiReady (youtubePlayer unreadyPlayerPlaying) = Some False \<and>
   audioPaused unreadyPlayerPlaying = False \<and>
   setPlaying envOk fileSong unreadyPlayerPlaying = Throws TypeError unreadyPlayerPlaying \<and>
   currentSongType overtakenResume = Youtube \<and>
   audioPaused overtakenResume = False \<and> audioSrc overtakenResume = ''a.mp3'' \<and>
   calls overtakenResume =
     [YtStopVideo, OscStop, OscDisconnect, ClearInterval 1, AudioSetSrc ''a.mp3'', ContextResume,
      AudioPause, YtLoadVideoById ''XYZ123'', AudioPlay] \<and>
   (\<exists>s'. setPlaying envOk videoSong overtakenResume = Returns s' \<and>
      audioPaused s' = False \<and> currentSongType s' = Youtube)"
  by (simp add: unreadyPlayerPlaying_def overtakenResume_def example_defs frameEnv_def url_defs
      engine_defs createMusicManager_def onUpdate_def addEventListener_def initYouTubePlayer_def
      animationFrame_def updateVisualizationData_def startYouTubeVisualization_def
      resumeSettles_def)

lemma pause_fields:
  "youtubePlayer (pause s) = youtubePlayer s"
  "currentSongType (pause s) = currentSongType s"
  "audioListeners (pause s) = audioListeners s"
  "audioSrc (pause s) = audioSrc s"
  by (simp_all add: pause_def stopYV_fields logCall_def clearIntervalH_def Let_def
      split: option.splits)



lemma pause_interval:
  "(case youtubeTimeUpdateInterval (pause s) of
      Some h \<Rightarrow> youtubeTimeUpdateInterval s = Some h \<and> activeIntervals (pause s) = activeIntervals s
    | None \<Rightarrow>
        (case youtubeTimeUpdateInterval s of
           Some h \<Rightarrow> activeIntervals (pause s) = removeAll h (activeIntervals s)
         | None \<Rightarrow> activeIntervals (pause s) = activeIntervals s))"
  by (simp add: pause_def stopYV_fields logCall_def clearIntervalH_def Let_def
      split: option.splits)




lemma destroy_intervals:
  "activeIntervals (stateOf (destroy s)) =
     (case youtubeTimeUpdateInterval s of
        Some h \<Rightarrow> removeAll h (activeIntervals s)
      | None \<Rightarrow> activeIntervals s)"
  using pause_interval[of s]
  by (auto simp: destroy_def stopYV_fields removeEventListener_def logCall_def
      clearIntervalH_def Let_def split: option.splits)

lemma destroy_player:
  "youtubePlayer (stateOf (destroy s)) = map_option (\<lambda>p. p\<lparr>destroyed := True\<rparr>) (youtubePlayer s)"
  by (simp add: destroy_def stopYV_fields pause_fields removeEventListener_def logCall_def
      clearIntervalH_def Let_def split: option.splits)







lemma toUint8_clampByte:
  "toUint8 (clampByte a) = nat \<lfloor>clampByte a\<rfloor>" "toUint8 (clampByte a) \<le> 255"
proof -
  have b: "0 \<le> clampByte a" "clampByte a \<le> 255" by (simp_all add: clampByte_def)
  have f0: "0 \<le> \<lfloor>clampByte a\<rfloor>" using b(1) by simp
  have f1: "\<lfloor>clampByte a\<rfloor> \<le> 255" using b(2) by (simp add: floor_le_iff)
  from f0 f1 have "\<lfloor>clampByte a\<rfloor> mod 256 = \<lfloor>clampByte a\<rfloor>" by simp
  then show e: "toUint8 (clampByte a) = nat \<lfloor>clampByte a\<rfloor>"
    using b(1) by (simp add: toUint8_def)
  show "toUint8 (clampByte a) \<le> 255" using f1 by (simp add: e nat_le_iff)
qed

lemma makeFrame_bytes:
  "length (makeFrame fe t) = frequencyBinCount fe"
  "x \<in> set (makeFrame fe t) \<Longrightarrow> x \<le> 255"
  using toUint8_clampByte(2) by (auto simp: makeFrame_def)

lemma updateVisualizationData_analyser:
  "analyserInputs (fst (updateVisualizationData fe t s)) = analyserInputs s"
  "fst (updateVisualizationData fe t s) = fst (updateVisualizationData fe' t s)"
  by (simp_all add: updateVisualizationData_def logCall_def Let_def split: option.splits)

text \<open>
  Claim C5, evaluated on the code. With the embedded backend playing, a run of
  \<^verbatim>\<open>updateVisualizationData\<close> builds a frame of bytes (each the clamped amplitude,
  at most 255), but the frame stays in the local array: the analyser's inputs are the
  media element source and a gain node of gain 0 before and after the tick, and the
  engine state after an animation frame is the same whatever \<^verbatim>\<open>Math.sin\<close> and
  \<^verbatim>\<open>Math.random\<close> returned. A second \<open>PLAYING\<close> report without a pause in between
  leaves two frame callbacks pending on every frame, since the first loop's frame is not
  cancelled.
\<close>

theorem C5_frame_not_injected:
  "snd (updateVisualizationData frameEnv (1 / 10) playingVideo) =
     Some (makeFrame frameEnv (2 / 10)) \<and>
   analyserInputs playingVideo = [MediaElementSource, SilentGain 0] \<and>
   analyserInputs (fst (updateVisualizationData frameEnv (1 / 10) playingVideo)) =
     [MediaElementSource, SilentGain 0] \<and>
   analyserInputs (animationFrame frameEnv playingVideo) = [MediaElementSource, SilentGain 0] \<and>
   animationFrame frameEnv playingVideo =
     animationFrame (frameEnv\<lparr>mathRandom := (\<lambda>i. 0), mathSin := (\<lambda>x. 1)\<rparr>) playingVideo \<and>
   pendingFrames (stateOf (playerStateChange envOk frameEnv PLAYING playingVideo)) =
     [(2, 1 / 10), (3, 1 / 10)] \<and>
   pendingFrames (animationFrame frameEnv
     (stateOf (playerStateChange envOk frameEnv PLAYING playingVideo))) =
     [(4, 2 / 10), (5, 2 / 10)]"
  by (simp add: example_defs frameEnv_def animationFrame_def updateVisualizationData_def
      playerStateChange_def startYouTubeVisualization_def stopYouTubeVisualization_def
      onStateChange_def logCall_def Let_def)

lemma thenDo_Returns: "thenDo r Returns = r"
  by (cases r) simp_all

lemma dispatch_Nil: "dispatch e [] = Returns"
  by (rule ext) simp

lemma play_fields:
  "currentSongType (snd (play e s)) = currentSongType s"
  "youtubePlayer (snd (play e s)) = youtubePlayer s"
  "queue (snd (play e s)) = queue s"
  "audioSrc (snd (play e s)) = audioSrc s"
  by (simp_all add: play_def logCall_def clearIntervalH_def Let_def split: option.splits)

lemma playCall_fields:
  "currentSongType (playCall e s) = currentSongType s"
  "youtubePlayer (playCall e s) = youtubePlayer s"
  "queue (playCall e s) = queue s"
  "audioSrc (playCall e s) = audioSrc s"
  "contextState (playCall e s) = contextState s"
  by (simp_all add: playCall_def play_def audioPlayNow_def logCall_def clearIntervalH_def Let_def
      split: option.splits)

lemma playCall_activePlayer: "activePlayer (playCall e s) = activePlayer s"
  by (rule activePlayer_eq) (simp_all add: playCall_fields)

lemma playCall_running:
  assumes "activePlayer s = None" "contextState s = Running"
  shows "last (calls (playCall e s)) = AudioPlay"
    "playOk e \<Longrightarrow> \<not> audioPaused (playCall e s)"
  using assms by (simp_all add: playCall_def audioPlayNow_def logCall_def Let_def)

lemma playCall_suspended:
  assumes "activePlayer s = None" "contextState s = Suspended"
  shows "playCall e s = logCall ContextResume (s\<lparr>awaitingResume := Suc (awaitingResume s)\<rparr>)"
  using assms by (simp add: playCall_def)

lemma audioPlayNow_fields:
  "currentSongType (audioPlayNow e s) = currentSongType s"
  "youtubePlayer (audioPlayNow e s) = youtubePlayer s"
  "audioSrc (audioPlayNow e s) = audioSrc s"
  "contextState (audioPlayNow e s) = contextState s"
  "activeIntervals (audioPlayNow e s) = activeIntervals s"
  "youtubeTimeUpdateInterval (audioPlayNow e s) = youtubeTimeUpdateInterval s"
  by (simp_all add: audioPlayNow_def logCall_def Let_def)

lemma replayPending_fields:
  "currentSongType (replayPending e n s) = currentSongType s"
  "youtubePlayer (replayPending e n s) = youtubePlayer s"
  "audioSrc (replayPending e n s) = audioSrc s"
  "contextState (replayPending e n s) = contextState s"
  "activeIntervals (replayPending e n s) = activeIntervals s"
  "youtubeTimeUpdateInterval (replayPending e n s) = youtubeTimeUpdateInterval s"
  by (induction n arbitrary: s; simp add: audioPlayNow_fields)+

lemma replayPending_plays:
  "playOk e \<Longrightarrow> \<not> audioPaused (replayPending e (Suc n) s) \<and>
     last (calls (replayPending e (Suc n) s)) = AudioPlay"
proof (induction n arbitrary: s)
  case 0
  then show ?case by (simp add: audioPlayNow_def logCall_def Let_def)
next
  case (Suc n)
  have "replayPending e (Suc (Suc n)) s = replayPending e (Suc n) (audioPlayNow e s)" by simp
  then show ?case using Suc.IH[OF Suc.prems, of "audioPlayNow e s"] by (simp del: replayPending.simps)
qed

lemma resumeSettles_plays:
  assumes "0 < awaitingResume s" "resumeOk e" "playOk e"
  shows "\<not> audioPaused (resumeSettles e s)" "contextState (resumeSettles e s) = Running"
    "last (calls (resumeSettles e s)) = AudioPlay"
    "audioSrc (resumeSettles e s) = audioSrc s"
    "currentSongType (resumeSettles e s) = currentSongType s"
    "youtubePlayer (resumeSettles e s) = youtubePlayer s"
proof -
  obtain n where n: "awaitingResume s = Suc n" using assms(1) by (cases "awaitingResume s") auto
  let ?s0 = "s\<lparr>contextState := Running, awaitingResume := 0\<rparr>"
  have r: "resumeSettles e s = replayPending e (Suc n) ?s0"
    using n assms(2) by (simp add: resumeSettles_def)
  note p = replayPending_plays[OF assms(3), of n ?s0]
  show "\<not> audioPaused (resumeSettles e s)" using r p by simp
  show "last (calls (resumeSettles e s)) = AudioPlay" using r p by simp
  show "contextState (resumeSettles e s) = Running"
    "audioSrc (resumeSettles e s) = audioSrc s"
    "currentSongType (resumeSettles e s) = currentSongType s"
    "youtubePlayer (resumeSettles e s) = youtubePlayer s"
    unfolding r by (simp_all only: replayPending_fields) simp_all
qed

lemma stopCurrent_frame:
  "queue (stateOf (stopCurrent s)) = queue s"
  "contextState (stateOf (stopCurrent s)) = contextState s"
  "\<exists>cs. calls (stateOf (stopCurrent s)) = calls s @ cs"
proof -
  show "queue (stateOf (stopCurrent s)) = queue s"
    by (simp add: stopCurrent_def stopYV_fields logCall_def clearIntervalH_def Let_def
        split: option.splits)
  show "contextState (stateOf (stopCurrent s)) = contextState s"
    by (simp add: stopCurrent_def stopYV_fields logCall_def clearIntervalH_def Let_def
        split: option.splits)
  obtain cs where "calls (stopYouTubeVisualization (logCall YtStopVideo s)) =
      calls (logCall YtStopVideo s) @ cs" using stopYV_calls by blast
  then show "\<exists>cs. calls (stateOf (stopCurrent s)) = calls s @ cs"
    by (simp add: stopCurrent_def stopYV_fields logCall_def clearIntervalH_def Let_def
        split: option.splits)
qed

lemma stopCurrent_Returns:
  assumes "\<not> (currentSongType s = Youtube \<and> (\<exists>p. youtubePlayer s = Some p \<and> \<not> apiReady p))"
  shows "\<exists>s1 cs. stopCurrent s = Returns s1 \<and> youtubePlayer s1 = youtubePlayer s \<and>
           queue s1 = queue s \<and> contextState s1 = contextState s \<and> calls s1 = calls s @ cs"
proof -
  have "\<exists>s1. stopCurrent s = Returns s1 \<and> youtubePlayer s1 = youtubePlayer s"
  proof (cases "currentSongType s = Audio \<or> youtubePlayer s = None")
    case True
    then show ?thesis using stopCurrent_audio[OF True] by (simp add: logCall_def)
  next
    case False
    then obtain p where p: "currentSongType s = Youtube" "youtubePlayer s = Some p"
      by (cases "currentSongType s") auto
    with assms have "apiReady p" by simp
    from stopCurrent_youtube[OF p this] p(2) show ?thesis by auto
  qed
  then obtain s1 where s1: "stopCurrent s = Returns s1" "youtubePlayer s1 = youtubePlayer s" by blast
  then show ?thesis using stopCurrent_frame[of s] by auto
qed

lemma loadSong_file:
  assumes "\<not> isYouTubeUrl (song_url sg)"
  shows "\<exists>s'. loadSong e w sg s = Returns s' \<and> currentSongType s' = Audio \<and>
           audioSrc s' = song_url sg \<and> queue s' = queue s \<and> activePlayer s' = None \<and>
           contextState s' = contextState s \<and>
           (\<exists>cs. calls s' = calls s @ AudioSetSrc (song_url sg) # cs)"
proof -
  let ?s1 = "logCall (AudioSetSrc (song_url sg)) (s\<lparr>currentSongType := Audio, audioSrc := song_url sg\<rparr>)"
  have f: "currentSongType ?s1 = Audio" "audioSrc ?s1 = song_url sg" "queue ?s1 = queue s"
    "calls ?s1 = calls s @ [AudioSetSrc (song_url sg)]" "activePlayer ?s1 = None"
    "contextState ?s1 = contextState s"
    by (simp_all add: logCall_def activePlayer_def)
  show ?thesis
  proof (cases w)
    case False
    then have "loadSong e w sg s = Returns ?s1" using assms by (simp add: loadSong_def)
    then show ?thesis using f by simp
  next
    case True
    then have l: "loadSong e w sg s = Returns (playCall e ?s1)"
      using assms by (simp add: loadSong_def)
    obtain cs where "calls (playCall e ?s1) = calls ?s1 @ cs" using playCall_calls by blast
    then have "calls (playCall e ?s1) = calls s @ AudioSetSrc (song_url sg) # cs"
      using f(4) by simp
    then show ?thesis using l f playCall_fields[of e ?s1] playCall_activePlayer[of e ?s1] by simp
  qed
qed

lemma loadSong_video_frame:
  assumes "isYouTubeUrl (song_url sg)" "youtubePlayer s = Some p" "apiReady p"
  shows "\<exists>s' vid p' cs. loadSong e w sg s = Returns s' \<and>
           getYouTubeVideoId (song_url sg) = Some vid \<and> activePlayer s' = Some p' \<and>
           loadedVideo p' = Some vid \<and> currentSongType s' = Youtube \<and> queue s' = queue s \<and>
           calls s' = calls s @ YtLoadVideoById vid # cs"
proof -
  from loadSong_video[OF assms, of e w] obtain vid where
    vid: "getYouTubeVideoId (song_url sg) = Some vid"
    and ld: "loadSong e w sg s =
             Returns ((if w then (\<lambda>x. logCall (SetTimeout 500)
                         (x\<lparr>pendingTimeouts := pendingTimeouts x @ [(500, ResumePlay)]\<rparr>))
                       else (\<lambda>x. x))
                      (logCall (YtLoadVideoById vid)
                         (s\<lparr>currentSongType := Youtube,
                            youtubePlayer := Some (p\<lparr>loadedVideo := Some vid\<rparr>)\<rparr>)))"
    by blast
  let ?p' = "p\<lparr>loadedVideo := Some vid\<rparr>"
  let ?s' = "(if w then (\<lambda>x. logCall (SetTimeout 500)
                         (x\<lparr>pendingTimeouts := pendingTimeouts x @ [(500, ResumePlay)]\<rparr>))
                       else (\<lambda>x. x))
                      (logCall (YtLoadVideoById vid)
                         (s\<lparr>currentSongType := Youtube, youtubePlayer := Some ?p'\<rparr>))"
  have "activePlayer ?s' = Some ?p'" using assms(3) by (simp add: activePlayer_def logCall_def)
  moreover have "loadedVideo ?p' = Some vid" by simp
  moreover have "currentSongType ?s' = Youtube" "queue ?s' = queue s"
    by (simp_all add: logCall_def)
  moreover have "calls ?s' = calls s @ YtLoadVideoById vid # (if w then [SetTimeout 500] else [])"
    by (simp add: logCall_def)
  ultimately show ?thesis using ld vid by blast
qed

text \<open>
  Claim C6, as the code has it. \<^verbatim>\<open>onEnded\<close> runs when the audio element fires
  \<^verbatim>\<open>ended\<close> (through the listener \<^verbatim>\<open>init()\<close> registered) and when the embedded
  player reports \<open>ENDED\<close>. It moves the queue to the selection of \<^verbatim>\<open>next()\<close>. Let a
  song be selected. For an embedded-video song let the player object exist with its
  API; then \<^verbatim>\<open>loadVideoById\<close> is followed by \<^verbatim>\<open>playVideo\<close> and the polling
  interval runs. For a direct-media song let the engine not be in type \<^verbatim>\<open>'youtube'\<close>
  with a player object that lacks its API (there the unguarded \<^verbatim>\<open>stopVideo()\<close>
  throws); then \<^verbatim>\<open>audio.src\<close> is set to the song and \<^verbatim>\<open>play()\<close> is issued on the
  audio element: with a running context \<^verbatim>\<open>audio.play()\<close> is the last call and the
  element plays if the environment accepts the play; with a suspended context the last
  call is \<^verbatim>\<open>context.resume()\<close>, and once that is fulfilled \<^verbatim>\<open>audio.play()\<close> follows
  and the song plays, again if the environment accepts. The counterexample is an
  embedded-video song selected while no player object exists: nothing is loaded and the
  previous file is started again.
\<close>

theorem C6_ended_advances_and_plays:
  assumes "queueNext e (queue s) = (q, Some sg)"
    and "if isYouTubeUrl (song_url sg)
         then \<exists>p. youtubePlayer s = Some p \<and> apiReady p
         else \<not> (currentSongType s = Youtube \<and> (\<exists>p. youtubePlayer s = Some p \<and> \<not> apiReady p))"
  shows "\<exists>s'. onEnded e s = Returns s' \<and> queue s' = q \<and>
      (if isYouTubeUrl (song_url sg)
       then currentSongType s' = Youtube \<and>
            (\<exists>p vid a b c. activePlayer s' = Some p \<and>
               getYouTubeVideoId (song_url sg) = Some vid \<and> loadedVideo p = Some vid \<and>
               calls s' = calls s @ a @ YtLoadVideoById vid # b @ YtPlayVideo # c) \<and>
            youtubeTimeUpdateInterval s' \<noteq> None
       else currentSongType s' = Audio \<and> audioSrc s' = song_url sg \<and> activePlayer s' = None \<and>
            (\<exists>a b. calls s' = calls s @ a @ AudioSetSrc (song_url sg) # b) \<and>
            contextState s' = contextState s \<and>
            (contextState s = Running \<longrightarrow>
               last (calls s') = AudioPlay \<and>
               (playOk e \<longrightarrow> \<not> audioPaused s' \<and> \<not> isPaused s')) \<and>
            (contextState s = Suspended \<longrightarrow>
               last (calls s') = ContextResume \<and> 0 < awaitingResume s' \<and>
               (\<forall>e'. resumeOk e' \<and> playOk e' \<longrightarrow>
                  \<not> audioPaused (resumeSettles e' s') \<and> \<not> isPaused (resumeSettles e' s') \<and>
                  audioSrc (resumeSettles e' s') = song_url sg \<and>
                  last (calls (resumeSettles e' s')) = AudioPlay))) \<and>
      (audioListeners s = [(EvTimeupdate, HOnTimeUpdate), (EvPlay, HOnStateChange),
          (EvPause, HOnStateChange), (EvEnded, HOnEnded)] \<longrightarrow>
         audioEvent e EvEnded s = onEnded e s) \<and>
      (\<forall>p. youtubePlayer s = Some p \<longrightarrow>
         playerStateChange e fe ENDED s =
           onEnded e (s\<lparr>youtubePlayer := Some (p\<lparr>playerState := ENDED\<rparr>)\<rparr>))"
proof -
  let ?s0 = "s\<lparr>queue := q\<rparr>"
  let ?w = "\<not> isPaused ?s0"
  have u0: "\<not> (currentSongType ?s0 = Youtube \<and> (\<exists>p. youtubePlayer ?s0 = Some p \<and> \<not> apiReady p))"
    using assms(2) by (auto split: if_splits)
  from stopCurrent_Returns[OF u0] obtain s1 cs1 where
    s1: "stopCurrent ?s0 = Returns s1" "youtubePlayer s1 = youtubePlayer s" "queue s1 = q"
      "contextState s1 = contextState s" "calls s1 = calls s @ cs1" by auto
  have trig1: "audioListeners s = [(EvTimeupdate, HOnTimeUpdate), (EvPlay, HOnStateChange),
          (EvPause, HOnStateChange), (EvEnded, HOnEnded)] \<longrightarrow>
         audioEvent e EvEnded s = onEnded e s"
    by (simp add: audioEvent_def thenDo_Returns dispatch_Nil)
  have trig2: "\<forall>p. youtubePlayer s = Some p \<longrightarrow>
         playerStateChange e fe ENDED s =
           onEnded e (s\<lparr>youtubePlayer := Some (p\<lparr>playerState := ENDED\<rparr>)\<rparr>)"
    by (simp add: playerStateChange_def)
  have oe: "\<And>s2. loadSong e ?w sg s1 = Returns s2 \<Longrightarrow>
      onEnded e s = Returns (playCall e (logCall NotifyTimeUpdate (logCall (NotifyNext (Some sg)) s2)))"
    using assms(1) s1(1) by (simp add: onEnded_def onUpdate_def setPlaying_def)
  show ?thesis
  proof (cases "isYouTubeUrl (song_url sg)")
    case True
    with assms(2) obtain p where p: "youtubePlayer s = Some p" "apiReady p" by auto
    from loadSong_video_frame[OF True, of s1 p e ?w] p s1(2) obtain s2 vid p' cs2 where
      s2: "loadSong e ?w sg s1 = Returns s2" "getYouTubeVideoId (song_url sg) = Some vid"
        "activePlayer s2 = Some p'" "loadedVideo p' = Some vid" "currentSongType s2 = Youtube"
        "queue s2 = queue s1" "calls s2 = calls s1 @ YtLoadVideoById vid # cs2"
      by auto
    let ?s3 = "logCall NotifyTimeUpdate (logCall (NotifyNext (Some sg)) s2)"
    let ?s' = "playCall e ?s3"
    have a3: "activePlayer ?s3 = Some p'"
      using activePlayer_eq[of ?s3 s2] s2(3) by (simp add: logCall_def)
    have c3: "calls ?s3 = calls s @ cs1 @ YtLoadVideoById vid # (cs2 @ [NotifyNext (Some sg), NotifyTimeUpdate])"
      using s2(7) s1(5) by (simp add: logCall_def)
    from play_player_calls[OF a3, of e] playCall_player[OF a3, of e] obtain c where
      c: "calls ?s' = calls ?s3 @ YtPlayVideo # c" and iv: "youtubeTimeUpdateInterval ?s' \<noteq> None"
      by auto
    have cs: "calls ?s' = calls s @ cs1 @ YtLoadVideoById vid #
        (cs2 @ [NotifyNext (Some sg), NotifyTimeUpdate]) @ YtPlayVideo # c"
      using c c3 by simp
    have f: "currentSongType ?s' = Youtube" "queue ?s' = q" "activePlayer ?s' = Some p'"
      using playCall_fields[of e ?s3] playCall_activePlayer[of e ?s3] a3 s2(5,6) s1(3)
      by (simp_all add: logCall_def)
    have ex: "\<exists>p vid a b c. activePlayer ?s' = Some p \<and>
               getYouTubeVideoId (song_url sg) = Some vid \<and> loadedVideo p = Some vid \<and>
               calls ?s' = calls s @ a @ YtLoadVideoById vid # b @ YtPlayVideo # c"
      using f(3) s2(2,4) cs
      by (intro exI[of _ p'] exI[of _ vid] exI[of _ cs1]
          exI[of _ "cs2 @ [NotifyNext (Some sg), NotifyTimeUpdate]"] exI[of _ c]) simp
    show ?thesis
      using oe[OF s2(1)] f(1,2) ex iv True trig1 trig2
      by (intro exI[of _ ?s']) (simp only: if_True simp_thms)
  next
    case False
    from loadSong_file[OF False, of e ?w s1] obtain s2 cs2 where
      s2: "loadSong e ?w sg s1 = Returns s2" "currentSongType s2 = Audio"
        "audioSrc s2 = song_url sg" "queue s2 = queue s1" "activePlayer s2 = None"
        "contextState s2 = contextState s1"
        "calls s2 = calls s1 @ AudioSetSrc (song_url sg) # cs2"
      by auto
    let ?s3 = "logCall NotifyTimeUpdate (logCall (NotifyNext (Some sg)) s2)"
    let ?s' = "playCall e ?s3"
    have a3: "activePlayer ?s3 = None"
      using activePlayer_eq[of ?s3 s2] s2(5) by (simp add: logCall_def)
    have x3: "contextState ?s3 = contextState s" using s2(6) s1(4) by (simp add: logCall_def)
    obtain c where c: "calls ?s' = calls ?s3 @ c" using playCall_calls by blast
    have cs: "calls ?s' = calls s @ cs1 @ AudioSetSrc (song_url sg) #
        (cs2 @ [NotifyNext (Some sg), NotifyTimeUpdate] @ c)"
      using c s2(7) s1(5) by (simp add: logCall_def)
    have f: "currentSongType ?s' = Audio" "queue ?s' = q" "activePlayer ?s' = None"
      "audioSrc ?s' = song_url sg" "contextState ?s' = contextState s"
      using playCall_fields[of e ?s3] playCall_activePlayer[of e ?s3] a3 s2(2,3,4) s1(3) x3
      by (simp_all add: logCall_def)
    have run: "contextState s = Running \<longrightarrow>
               last (calls ?s') = AudioPlay \<and>
               (playOk e \<longrightarrow> \<not> audioPaused ?s' \<and> \<not> isPaused ?s')"
    proof
      assume r: "contextState s = Running"
      then have r3: "contextState ?s3 = Running" using x3 by simp
      note pr = playCall_running[OF a3 r3, of e]
      have "playOk e \<longrightarrow> \<not> isPaused ?s'"
        using pr(2) f(3,5) r by (simp add: isPaused_def)
      then show "last (calls ?s') = AudioPlay \<and>
               (playOk e \<longrightarrow> \<not> audioPaused ?s' \<and> \<not> isPaused ?s')"
        using pr by simp
    qed
    have sus: "contextState s = Suspended \<longrightarrow>
               last (calls ?s') = ContextResume \<and> 0 < awaitingResume ?s' \<and>
               (\<forall>e'. resumeOk e' \<and> playOk e' \<longrightarrow>
                  \<not> audioPaused (resumeSettles e' ?s') \<and> \<not> isPaused (resumeSettles e' ?s') \<and>
                  audioSrc (resumeSettles e' ?s') = song_url sg \<and>
                  last (calls (resumeSettles e' ?s')) = AudioPlay)"
    proof (intro impI conjI allI)
      assume r: "contextState s = Suspended"
      then have r3: "contextState ?s3 = Suspended" using x3 by simp
      note ps = playCall_suspended[OF a3 r3, of e]
      show "last (calls ?s') = ContextResume" unfolding ps by (simp add: logCall_def)
      show aw: "0 < awaitingResume ?s'" unfolding ps by (simp add: logCall_def)
      fix e' :: env
      assume e': "resumeOk e' \<and> playOk e'"
      then have ok: "resumeOk e'" "playOk e'" by auto
      note rs = resumeSettles_plays[OF aw ok]
      show "\<not> audioPaused (resumeSettles e' ?s')" by (rule rs(1))
      have "activePlayer (resumeSettles e' ?s') = None"
        using activePlayer_eq[OF rs(5) rs(6)] f(3) by simp
      then show "\<not> isPaused (resumeSettles e' ?s')" using rs(1,2) by (simp add: isPaused_def)
      show "audioSrc (resumeSettles e' ?s') = song_url sg" using rs(4) f(4) by simp
      show "last (calls (resumeSettles e' ?s')) = AudioPlay" by (rule rs(3))
    qed
    have ex: "\<exists>a b. calls ?s' = calls s @ a @ AudioSetSrc (song_url sg) # b"
      using cs by (intro exI[of _ cs1]
          exI[of _ "cs2 @ [NotifyNext (Some sg), NotifyTimeUpdate] @ c"]) simp
    show ?thesis
      using oe[OF s2(1)] f ex run sus False trig1 trig2
      by (intro exI[of _ ?s']) (simp only: if_False simp_thms)
  qed
qed

theorem C6_ended_advances_and_plays_witness:
  "queueNext envWrap (queue endedFile) =
     (\<lparr>songs = [fileSong, videoSong], currentIndex = Some 1\<rparr>, Some videoSong) \<and>
   apiReady (readyPlayer\<lparr>playerState := UNSTARTED, loadedVideo := None\<rparr>) \<and>
   (\<exists>s'. audioEvent envWrap EvEnded endedFile = Returns s' \<and>
      currentIndex (queue s') = Some 1 \<and> currentSongType s' = Youtube \<and>
      map_option loadedVideo (youtubePlayer s') = Some (Some ''XYZ123'') \<and>
      youtubeTimeUpdateInterval s' = Some 1 \<and>
      calls s' = [AudioPause, YtLoadVideoById ''XYZ123'', NotifyNext (Some videoSong),
        NotifyTimeUpdate, YtPlayVideo, SetInterval 1]) \<and>
   (\<exists>s'. playerStateChange envWrap frameEnv ENDED playingVideo = Returns s' \<and>
      currentIndex (queue s') = Some 1 \<and> currentSongType s' = Audio \<and>
      audioSrc s' = ''a.mp3'' \<and> audioPaused s' = False \<and> isPaused s' = False \<and>
      calls s' = [YtStopVideo, OscStop, OscDisconnect, ClearInterval 1, AudioSetSrc ''a.mp3'',
        NotifyNext (Some fileSong), NotifyTimeUpdate, AudioPlay]) \<and>
   (\<exists>s'. playerStateChange envWrap frameEnv ENDED (playingVideo\<lparr>contextState := Suspended\<rparr>) =
        Returns s' \<and>
      currentSongType s' = Audio \<and> audioSrc s' = ''a.mp3'' \<and> audioPaused s' = True \<and>
      awaitingResume s' = 1 \<and>
      calls s' = [YtStopVideo, OscStop, OscDisconnect, ClearInterval 1, AudioSetSrc ''a.mp3'',
        NotifyNext (Some fileSong), NotifyTimeUpdate, ContextResume] \<and>
      audioPaused (resumeSettles envWrap s') = False \<and>
      isPaused (resumeSettles envWrap s') = False \<and>
      calls (resumeSettles envWrap s') = calls s' @ [AudioPlay])"
  using C6_ended_advances_and_plays[of envWrap endedFile
      "\<lparr>songs = [fileSong, videoSong], currentIndex = Some 1\<rparr>" videoSong frameEnv]
    C6_ended_advances_and_plays[of envWrap
      "playingVideo\<lparr>youtubePlayer := Some (readyPlayer\<lparr>playerState := ENDED\<rparr>)\<rparr>"
      "\<lparr>songs = [videoSong, fileSong], currentIndex = Some 1\<rparr>" fileSong frameEnv]
    C6_ended_advances_and_plays[of envWrap
      "playingVideo\<lparr>youtubePlayer := Some (readyPlayer\<lparr>playerState := ENDED\<rparr>),
         contextState := Suspended\<rparr>"
      "\<lparr>songs = [videoSong, fileSong], currentIndex = Some 1\<rparr>" fileSong frameEnv]
  by (simp add: envWrap_def endedFile_def queueNextWrap_def example_defs url_defs engine_defs
      audioEvent_def onEnded_def onUpdate_def resumeSettles_def)

theorem C6_ended_advances_and_plays_counterexample:
  "queueNext envWrap (queue endedFileNoPlayer) =
     (\<lparr>songs = [fileSong, videoSong], currentIndex = Some 1\<rparr>, Some videoSong) \<and>
   audioListeners endedFileNoPlayer = [(EvTimeupdate, HOnTimeUpdate), (EvPlay, HOnStateChange),
     (EvPause, HOnStateChange), (EvEnded, HOnEnded)] \<and>
   (\<exists>s'. audioEvent envWrap EvEnded endedFileNoPlayer = Returns s' \<and>
      currentIndex (queue s') = Some 1 \<and> currentSongType s' = Audio \<and>
      youtubePlayer s' = None \<and> audioSrc s' = ''a.mp3'' \<and> audioPaused s' = False \<and>
      calls s' = [AudioPause, NotifyNext (Some videoSong), NotifyTimeUpdate, AudioPlay])"
  by (simp add: envWrap_def endedFileNoPlayer_def queueNextWrap_def example_defs url_defs
      engine_defs audioEvent_def onEnded_def onUpdate_def)

lemma wf_eq:
  assumes "wellFormed s" "activeIntervals s' = activeIntervals s"
    "youtubeTimeUpdateInterval s' = youtubeTimeUpdateInterval s"
    "currentSongType s' = currentSongType s" "(youtubePlayer s' = None) = (youtubePlayer s = None)"
  shows "wellFormed s'"
  using assms by (simp add: wellFormed_def timersTracked_def split: option.splits)

lemma wf_logCall: "wellFormed (logCall c s) = wellFormed s"
  by (simp add: wellFormed_def timersTracked_def logCall_def split: option.splits)

lemma wf_stopYV: "wellFormed s \<Longrightarrow> wellFormed (stopYouTubeVisualization s)"
  by (rule wf_eq) (simp_all add: stopYV_fields)

lemma wf_play: "wellFormed s \<Longrightarrow> wellFormed (snd (play e s))"
  by (auto simp: wellFormed_def timersTracked_def play_def logCall_def clearIntervalH_def
      activePlayer_def Let_def split: option.splits if_splits)

lemma wf_playCall: "wellFormed s \<Longrightarrow> wellFormed (playCall e s)"
proof (cases "activePlayer s")
  case (Some p)
  assume "wellFormed s"
  then show ?thesis using Some wf_play[of s e] by (simp add: playCall_def)
next
  case None
  assume w: "wellFormed s"
  have "wellFormed (playCall e s)"
    by (rule wf_eq[OF w]) (simp_all add: playCall_audio_fields[OF None])
  then show ?thesis .
qed

lemma wf_resumeSettles: "wellFormed s \<Longrightarrow> wellFormed (resumeSettles e s)"
proof -
  assume w: "wellFormed s"
  have a: "wellFormed (s\<lparr>awaitingResume := 0\<rparr>)" by (rule wf_eq[OF w]) simp_all
  have "wellFormed (replayPending e (awaitingResume s)
          (s\<lparr>contextState := Running, awaitingResume := 0\<rparr>))"
    by (rule wf_eq[OF w]) (simp_all add: replayPending_fields)
  then show ?thesis using w a by (simp add: resumeSettles_def)
qed

lemma wf_pause: "wellFormed s \<Longrightarrow> wellFormed (pause s)"
  by (auto simp: wellFormed_def timersTracked_def pause_def logCall_def clearIntervalH_def
      stopYV_fields activePlayer_def Let_def split: option.splits if_splits)


lemma wf_stopCurrent: "wellFormed s \<Longrightarrow> wellFormed (stateOf (stopCurrent s))"
  by (auto simp: wellFormed_def timersTracked_def stopCurrent_def logCall_def clearIntervalH_def
      stopYV_fields Let_def split: option.splits if_splits)

lemma loadSong_player:
  "(youtubePlayer (stateOf (loadSong e w sg s)) = None) = (youtubePlayer s = None)"
  "currentSongType (stateOf (loadSong e w sg s)) = Youtube \<Longrightarrow>
     currentSongType s = Youtube \<or> youtubePlayer s \<noteq> None"
proof -
  let ?s1 = "logCall (AudioSetSrc (song_url sg)) (s\<lparr>currentSongType := Audio, audioSrc := song_url sg\<rparr>)"
  have f: "youtubePlayer (playCall e ?s1) = youtubePlayer s"
    "currentSongType (playCall e ?s1) = Audio"
    by (simp_all add: playCall_fields logCall_def)
  show "(youtubePlayer (stateOf (loadSong e w sg s)) = None) = (youtubePlayer s = None)"
    using f by (simp add: loadSong_def logCall_def Let_def split: option.splits)
  show "currentSongType (stateOf (loadSong e w sg s)) = Youtube \<Longrightarrow>
     currentSongType s = Youtube \<or> youtubePlayer s \<noteq> None"
    using f by (simp add: loadSong_def logCall_def Let_def split: option.splits if_splits)
qed

lemma wf_loadSong: "wellFormed s \<Longrightarrow> wellFormed (stateOf (loadSong e w sg s))"
  using loadSong_timers[of e w sg s] loadSong_player[of e w sg s]
  by (cases "currentSongType (stateOf (loadSong e w sg s))")
     (auto simp: wellFormed_def timersTracked_def split: option.splits)

lemma wf_setPlaying: "wellFormed s \<Longrightarrow> wellFormed (stateOf (setPlaying e sg s))"
  using wf_stopCurrent[of s] wf_loadSong[of "stateOf (stopCurrent s)" e "\<not> isPaused s" sg]
  by (cases "stopCurrent s") (simp_all add: setPlaying_def)

lemma wf_destroy: "wellFormed s \<Longrightarrow> wellFormed (stateOf (destroy s))"
proof -
  assume w: "wellFormed s"
  have "timersTracked (stateOf (destroy s))"
    using w destroy_intervals[of s]
    by (auto simp: wellFormed_def timersTracked_def split: option.splits)
  moreover have "currentSongType (stateOf (destroy s)) = currentSongType s"
    by (simp add: destroy_def stopYV_fields pause_fields removeEventListener_def logCall_def
        clearIntervalH_def Let_def split: option.splits)
  ultimately show ?thesis using w destroy_player[of s] by (simp add: wellFormed_def)
qed

lemma wf_onEnded: "wellFormed s \<Longrightarrow> wellFormed (stateOf (onEnded e s))"
proof -
  assume w: "wellFormed s"
  obtain q sg where n: "queueNext e (queue s) = (q, sg)" by (cases "queueNext e (queue s)")
  have w0: "wellFormed (s\<lparr>queue := q\<rparr>)" by (rule wf_eq[OF w]) simp_all
  have w1: "wellFormed (stateOf (onUpdate e sg (s\<lparr>queue := q\<rparr>)))"
  proof (cases sg)
    case None
    then show ?thesis using w0 by (simp add: onUpdate_def wf_logCall)
  next
    case (Some x)
    then show ?thesis using wf_setPlaying[OF w0, of e x]
      by (cases "setPlaying e x (s\<lparr>queue := q\<rparr>)") (simp_all add: onUpdate_def wf_logCall)
  qed
  show ?thesis using n w1 wf_playCall
    by (cases "onUpdate e sg (s\<lparr>queue := q\<rparr>)") (simp_all add: onEnded_def)
qed

lemma wf_dispatch: "wellFormed s \<Longrightarrow> wellFormed (stateOf (dispatch e hs s))"
proof (induction hs arbitrary: s)
  case Nil
  then show ?case by simp
next
  case (Cons h hs)
  have "wellFormed (stateOf (runHandler e h s))"
    using Cons.prems wf_onEnded[of s e]
    by (cases h) (simp_all add: onTimeUpdate_def onStateChange_def wf_logCall split: option.splits)
  then show ?case using Cons.IH by (cases "runHandler e h s") simp_all
qed

lemma wf_updateVisualizationData:
  "wellFormed s \<Longrightarrow> wellFormed (fst (updateVisualizationData fe t s))"
  by (auto simp: updateVisualizationData_def Let_def wf_logCall split: option.splits
      intro: wf_eq)

lemma wf_startYV: "wellFormed s \<Longrightarrow> wellFormed (startYouTubeVisualization fe s)"
proof -
  assume w: "wellFormed s"
  let ?s1 = "if oscillator s \<noteq> None then stopYouTubeVisualization s else s"
  have w1: "wellFormed ?s1" using w wf_stopYV by simp
  have "wellFormed (logCall OscStart
                 (?s1\<lparr>oscillator := Some \<lparr>oscStarted = True, animationIdProp = None\<rparr>,
                     analyserInputs := analyserInputs ?s1 @ [SilentGain 0]\<rparr>))"
    unfolding wf_logCall by (rule wf_eq[OF w1]) simp_all
  then show ?thesis
    unfolding startYouTubeVisualization_def Let_def by (rule wf_updateVisualizationData)
qed

lemma wf_playerStateChange:
  "wellFormed s \<Longrightarrow> wellFormed (stateOf (playerStateChange e fe st s))"
proof (cases "youtubePlayer s")
  case None
  assume "wellFormed s"
  then show ?thesis using None by (simp add: playerStateChange_def)
next
  case (Some p)
  assume w: "wellFormed s"
  have w1: "wellFormed (s\<lparr>youtubePlayer := Some (p\<lparr>playerState := st\<rparr>)\<rparr>)"
    by (rule wf_eq[OF w]) (simp_all add: Some)
  show ?thesis using Some wf_onEnded[OF w1, of e] wf_startYV[OF w1, of fe] wf_stopYV[OF w1] w1
    by (auto simp: playerStateChange_def onStateChange_def wf_logCall Let_def)
qed

lemma wf_runFrameCallbacks: "wellFormed s \<Longrightarrow> wellFormed (runFrameCallbacks fe fs s)"
  by (induction fs arbitrary: s) (simp_all add: wf_updateVisualizationData)

lemma wf_step: "wellFormed s \<Longrightarrow> wellFormed (step a s)"
proof (cases a)
  case (DoSetVolume v)
  assume "wellFormed s"
  then show ?thesis using DoSetVolume
    by (auto simp: setVolume_def wf_logCall activePlayer_def split: option.splits if_splits
        intro!: wf_eq[of s])
next
  case (AudioFires e ev)
  assume "wellFormed s"
  then show ?thesis using AudioFires by (simp add: audioEvent_def wf_dispatch)
next
  case PlayerBecomesReady
  assume "wellFormed s"
  then show ?thesis using PlayerBecomesReady
    by (auto simp: playerReady_def split: option.splits intro!: wf_eq[of s])
next
  case IframeApiReady
  assume "wellFormed s"
  then show ?thesis using IframeApiReady
    by (auto simp: youTubeIframeAPIReady_def wf_logCall intro!: wf_eq[of s])
next
  case (TimeoutFires e i)
  assume w: "wellFormed s"
  let ?s1 = "s\<lparr>pendingTimeouts := take i (pendingTimeouts s) @ drop (Suc i) (pendingTimeouts s)\<rparr>"
  have w1: "wellFormed ?s1" by (rule wf_eq[OF w]) simp_all
  have "wellFormed (initYouTubePlayer e ?s1)"
    using w1 by (auto simp: initYouTubePlayer_def wellFormed_def timersTracked_def split: option.splits)
  then show ?thesis using TimeoutFires w wf_playCall[OF w1, of e]
    by (simp add: fireTimeout_def Let_def split: timeout_callback.splits)
next
  case (IntervalFires h)
  assume "wellFormed s"
  then show ?thesis using IntervalFires
    by (simp add: intervalTick_def onTimeUpdate_def wf_logCall split: option.splits)
next
  case (FrameFires fe)
  assume w: "wellFormed s"
  have "wellFormed (s\<lparr>pendingFrames := []\<rparr>)" by (rule wf_eq[OF w]) simp_all
  then show ?thesis using FrameFires by (simp add: animationFrame_def wf_runFrameCallbacks)
qed (simp_all add: wf_playCall wf_pause wf_setPlaying wf_destroy wf_playerStateChange
    wf_resumeSettles)

lemma wf_run: "wellFormed s \<Longrightarrow> wellFormed (run as s)"
  by (induction as arbitrary: s) (simp_all add: wf_step)

lemma wf_createMusicManager: "wellFormed (stateOf (createMusicManager e ctx q sel))"
  using createMusicManager_Returns[of e ctx q sel]
  by (auto simp: wellFormed_def timersTracked_def)

text \<open>The example states are reached by the engine: the playing video after the
  player became ready, the song was selected, \<^verbatim>\<open>play()\<close> was called and the player
  reported \<open>PLAYING\<close>; the playing file after \<^verbatim>\<open>play()\<close> on an engine created with a
  file selected while the player API was not loaded. The call log is left out of the
  comparison.\<close>

lemma playingVideo_reached:
  "(run [PlayerBecomesReady, DoSetPlaying envOk videoSong, DoPlay envOk,
         PlayerReports envOk frameEnv PLAYING]
      (stateOf (createMusicManager envOk Running
         \<lparr>songs = [videoSong, fileSong], currentIndex = Some 0\<rparr> None)))\<lparr>calls := []\<rparr> =
   playingVideo"
  by (simp add: example_defs frameEnv_def url_defs engine_defs createMusicManager_def
      addEventListener_def initYouTubePlayer_def playerReady_def
      startYouTubeVisualization_def updateVisualizationData_def)

lemma playingFile_reached:
  "(run [DoPlay envOk]
      (stateOf (createMusicManager (envOk\<lparr>ytApiLoaded := False\<rparr>) Running
         \<lparr>songs = [fileSong, videoSong], currentIndex = Some 0\<rparr> (Some (Some fileSong)))))
     \<lparr>calls := []\<rparr> =
   playingFile"
  by (simp add: example_defs url_defs engine_defs createMusicManager_def onUpdate_def
      addEventListener_def initYouTubePlayer_def)

lemma reachable_wellFormed:
  "wellFormed (run as (stateOf (createMusicManager e ctx q sel)))"
  by (rule wf_run[OF wf_createMusicManager])

end
